theory Spec2Isabelle
  imports Main "HOL-Library.Sublist"
begin

section \<open>JavaScript values used by the music context\<close>

text \<open>
  Strings are lists of bytes (the UTF-8 encoding of the JavaScript string); a property
  that is \<^verbatim>\<open>undefined\<close> is \<open>None\<close>. Numbers that occur here (search indices, quality
  tiers, retry counters) are natural numbers.
\<close>

text \<open>Truthiness: the empty string, 0 and \<^verbatim>\<open>undefined\<close> are falsy.\<close>

definition truthy_str :: "string option \<Rightarrow> bool" where
  "truthy_str a = (case a of None \<Rightarrow> False | Some s \<Rightarrow> s \<noteq> [])"

definition truthy_num :: "nat option \<Rightarrow> bool" where
  "truthy_num a = (case a of None \<Rightarrow> False | Some n \<Rightarrow> n \<noteq> 0)"

text \<open>\<^verbatim>\<open>a || b\<close> yields \<open>a\<close> when \<open>a\<close> is truthy and \<open>b\<close> otherwise.\<close>

definition or_str :: "string option \<Rightarrow> string option \<Rightarrow> string option" where
  "or_str a b = (if truthy_str a then a else b)"

definition or_num :: "nat option \<Rightarrow> nat option \<Rightarrow> nat option" where
  "or_num a b = (if truthy_num a then a else b)"

text \<open>\<^verbatim>\<open>a || b\<close> where \<open>b\<close> is a string that is always defined.\<close>

definition or_else :: "string option \<Rightarrow> string \<Rightarrow> string" where
  "or_else a b = (case a of None \<Rightarrow> b | Some s \<Rightarrow> if s = [] then b else s)"

text \<open>Template literals: \<^verbatim>\<open>`${x}`\<close> of a number is its decimal numeral, of
  \<^verbatim>\<open>undefined\<close> the text "undefined".\<close>

fun digits :: "nat \<Rightarrow> string" where
  "digits n =
     (if n < 10 then [char_of (48 + n)]
      else digits (n div 10) @ [char_of (48 + n mod 10)])"

declare digits.simps [simp del]

definition show_num :: "nat option \<Rightarrow> string" where
  "show_num a = (case a of None \<Rightarrow> ''undefined'' | Some n \<Rightarrow> digits n)"

definition show_str :: "string option \<Rightarrow> string" where
  "show_str a = (case a of None \<Rightarrow> ''undefined'' | Some s \<Rightarrow> s)"

text \<open>
  \<^verbatim>\<open>encodeURIComponent\<close>: every byte of the UTF-8 encoding is escaped as \<^verbatim>\<open>%XX\<close>
  (upper-case hexadecimal) except the unreserved characters
  \<^verbatim>\<open>A-Z a-z 0-9 - _ . ! ~ * ' ( )\<close>.
\<close>

definition uri_unreserved :: "char \<Rightarrow> bool" where
  "uri_unreserved c =
     (let n = (of_char c :: nat) in
        (65 \<le> n \<and> n \<le> 90) \<or> (97 \<le> n \<and> n \<le> 122) \<or> (48 \<le> n \<and> n \<le> 57) \<or>
        c \<in> set ''-_.!~*'()'')"

definition hex_digit :: "nat \<Rightarrow> char" where
  "hex_digit n = (if n < 10 then char_of (48 + n) else char_of (55 + n))"

definition percent_byte :: "char \<Rightarrow> string" where
  "percent_byte c =
     (let n = (of_char c :: nat) in [CHR ''%'', hex_digit (n div 16), hex_digit (n mod 16)])"

definition encodeURIComponent :: "string \<Rightarrow> string" where
  "encodeURIComponent s = concat (map (\<lambda>c. if uri_unreserved c then [c] else percent_byte c) s)"

section \<open>Songs\<close>

text \<open>
  The \<^verbatim>\<open>data.data\<close> object of a provider-B ("qq") detail response. It is stored whole
  as the \<^verbatim>\<open>details\<close> of a resolved song.
\<close>

record qq_detail =
  d_id :: "string option"
  d_url :: "string option"
  d_cover :: "string option"

text \<open>
  A song object. The same shape serves for a raw provider item (which carries
  \<^verbatim>\<open>song\<close> and \<^verbatim>\<open>author\<close>), a search-result stub, a resolved song and a history entry;
  a field an object does not have is \<open>None\<close>. The provider's title field
  \<^verbatim>\<open>song.song\<close> is \<open>song_title\<close>, and \<^verbatim>\<open>song.id\<close> is \<open>song_id\<close>.
\<close>

record song =
  song_id :: "string option"
  name :: "string option"
  singer :: "string option"
  song_title :: "string option"
  author :: "string option"
  cover :: "string option"
  url :: "string option"
  lyrics :: "string list option"
  platform :: "string option"
  searchTerm :: "string option"
  searchIndex :: "nat option"
  requestUrl :: "string option"
  details :: "qq_detail option"
  quality :: "nat option"

text \<open>
  What a render of \<^verbatim>\<open>MusicProvider\<close> hands to the functions it defines: the values of
  the state variables at that render. \<^verbatim>\<open>onPlaySong\<close>, \<^verbatim>\<open>addToHistory\<close> and
  \<^verbatim>\<open>updateSongData\<close> read these captured values, not the latest state.
\<close>

record closure =
  c_isLoading :: bool
  c_currentSong :: "song option"
  c_isPlaying :: bool
  c_searchTerm :: string
  c_selectedQuality :: "nat option"
  c_playQueue :: "song list"

text \<open>\<^verbatim>\<open>isSameSong\<close>, and the same test written inline in the history filters.\<close>

definition isSameSong :: "song \<Rightarrow> song \<Rightarrow> bool" where
  "isSameSong song1 song2 =
     (name song1 = name song2 \<and> singer song1 = singer song2 \<and> platform song1 = platform song2)"

section \<open>Play history\<close>

text \<open>The request URL that \<^verbatim>\<open>addToHistory\<close> builds for the entry it stores.\<close>

definition history_requestUrl :: "closure \<Rightarrow> song \<Rightarrow> string" where
  "history_requestUrl cl sg =
     ''/api/sby?platform='' @ show_str (platform sg) @
     ''&term='' @ encodeURIComponent (or_else (searchTerm sg) (c_searchTerm cl)) @
     ''&index='' @ show_num (searchIndex sg) @
     (if truthy_num (c_selectedQuality cl)
      then ''&quality='' @ show_num (c_selectedQuality cl) else '''')"

definition simplifiedSong :: "closure \<Rightarrow> song \<Rightarrow> song" where
  "simplifiedSong cl sg =
     \<lparr> song_id = song_id sg, name = name sg, singer = singer sg,
       song_title = None, author = None,
       cover = cover sg, url = url sg,
       lyrics = Some (case lyrics sg of None \<Rightarrow> [] | Some l \<Rightarrow> l),
       platform = platform sg,
       searchTerm = None, searchIndex = None,
       requestUrl = Some (history_requestUrl cl sg),
       details = None, quality = None \<rparr>"

definition addToHistory :: "closure \<Rightarrow> song \<Rightarrow> song list \<Rightarrow> song list" where
  "addToHistory cl sg prev =
     (let filtered = filter (\<lambda>s. \<not> isSameSong s sg) prev
      in take 50 (simplifiedSong cl sg # filtered))"

definition removeFromHistory :: "song \<Rightarrow> song list \<Rightarrow> song list" where
  "removeFromHistory sg prev = filter (\<lambda>s. \<not> isSameSong s sg) prev"

section \<open>Merging the two providers' results\<close>

text \<open>
  \<^verbatim>\<open>indexOf\<close> compares objects by identity, so a song object in a result list is its
  address paired with its fields: two objects are the same object when their addresses
  are equal, whatever their fields.
\<close>

type_synonym 'a obj = "nat \<times> 'a"

fun indexOf_from :: "'a obj list \<Rightarrow> 'a obj \<Rightarrow> nat \<Rightarrow> nat option" where
  "indexOf_from [] s k = None"
| "indexOf_from (x # xs) s k = (if fst x = fst s then Some k else indexOf_from xs s (Suc k))"

text \<open>\<^verbatim>\<open>xs.indexOf(s)\<close>; \<open>None\<close> stands for the result -1.\<close>

definition indexOf :: "'a obj list \<Rightarrow> 'a obj \<Rightarrow> nat option" where
  "indexOf xs s = indexOf_from xs s 0"

definition on_platform :: "string \<Rightarrow> song obj \<Rightarrow> bool" where
  "on_platform p s = (platform (snd s) = Some p)"

text \<open>The \<^verbatim>\<open>songs.find(...)\<close> of one round of the loop, for one platform.\<close>

definition find_ranked :: "string \<Rightarrow> song obj list \<Rightarrow> nat \<Rightarrow> song obj option" where
  "find_ranked p songs i =
     find (\<lambda>s. on_platform p s \<and> indexOf (filter (on_platform p) songs) s = Some i) songs"

function interleave_loop ::
  "song obj list \<Rightarrow> nat \<Rightarrow> nat \<Rightarrow> song obj list \<Rightarrow> song obj list" where
  "interleave_loop songs maxLength i interleavedSongs =
     (if i < maxLength then
        let wySong = find_ranked ''wy'' songs i;
            qqSong = find_ranked ''qq'' songs i;
            pushed_wy = (case wySong of None \<Rightarrow> interleavedSongs
                         | Some w \<Rightarrow> interleavedSongs @ [w]);
            pushed_qq = (case qqSong of None \<Rightarrow> pushed_wy | Some q \<Rightarrow> pushed_wy @ [q])
        in interleave_loop songs maxLength (Suc i) pushed_qq
      else interleavedSongs)"
  by pat_completeness auto

termination
  by (relation "measure (\<lambda>(songs, maxLength, i, acc). maxLength - i)") auto

declare interleave_loop.simps [simp del]

definition interleaveResults :: "song obj list \<Rightarrow> song obj list" where
  "interleaveResults songs =
     (let maxLength = max (length (filter (on_platform ''wy'') songs))
                          (length (filter (on_platform ''qq'') songs))
      in interleave_loop songs maxLength 0 [])"

text \<open>
  The object literals that \<^verbatim>\<open>onSearch\<close> builds from the items of a provider's response.
\<close>

definition tag_wy :: "song \<Rightarrow> nat \<Rightarrow> song" where
  "tag_wy sg index = sg \<lparr> platform := Some ''wy'',
      name := or_str (name sg) (song_title sg),
      singer := or_str (singer sg) (author sg),
      searchIndex := Some index \<rparr>"

definition tag_qq :: "song \<Rightarrow> nat \<Rightarrow> song" where
  "tag_qq sg index = sg \<lparr> platform := Some ''qq'',
      name := song_title sg,
      singer := singer sg,
      searchIndex := Some index \<rparr>"

text \<open>
  \<^verbatim>\<open>items.map((song, index) => ({...}))\<close>: every item yields a new object; the new
  objects take the addresses \<open>base, base + 1, ...\<close>.
\<close>

definition map_alloc :: "nat \<Rightarrow> (song \<Rightarrow> nat \<Rightarrow> song) \<Rightarrow> song list \<Rightarrow> song obj list" where
  "map_alloc base f items = map (\<lambda>(index, sg). (base + index, f sg index)) (enumerate 0 items)"

section \<open>Errors, effects and the state of the context\<close>

text \<open>A thrown error object: its \<^verbatim>\<open>name\<close> and its \<^verbatim>\<open>message\<close>.\<close>

datatype js_error = JsError (err_name: string) (err_message: string)

text \<open>
  The \<^verbatim>\<open>TypeError\<close> of reading a property of \<^verbatim>\<open>undefined\<close>, with the message text
  of V8.
\<close>

definition type_error :: "string \<Rightarrow> js_error" where
  "type_error prop =
     JsError ''TypeError'' (''Cannot read properties of undefined (reading '' @ [CHR 0x27] @ prop @ [CHR 0x27] @ '')'')"

text \<open>How a promise settles.\<close>

datatype 'a settled = Rejected js_error | Resolved 'a

text \<open>
  What the code does to the outside, in the order it does it. A resolution is named by
  the number of its \<^verbatim>\<open>AbortController\<close>. \<open>SetCurrentSong\<close> and \<open>AddToHistory\<close> record
  the calls of \<^verbatim>\<open>setCurrentSong\<close> and \<^verbatim>\<open>addToHistory\<close> together with the resolution
  that makes them.
\<close>

datatype effect =
    AbortReq nat
  | FetchReq nat string
  | SearchReq string
  | InfoMsg string
  | ErrorMsg string
  | DelayReq nat nat
  | ConsoleError string js_error
  | ToggleQueue song
  | SetCurrentSong nat song
  | AddToHistory nat song

text \<open>The parameters of one call of \<^verbatim>\<open>onPlaySong\<close>, the render that made the call,
  and the local variables of the call that live across its \<^verbatim>\<open>await\<close>s.\<close>

datatype phase = AwaitFetch | AwaitTimer | Finished

record task =
  t_closure :: closure
  t_song :: song
  t_index :: "nat option"
  t_quality :: "nat option"
  t_isRetry :: bool
  t_retryCount :: nat
  t_lastError :: "js_error option"
  t_phase :: phase

record ctx_state =
  songs :: "song list"
  currentSong :: "song option"
  isPlaying :: bool
  isSearching :: bool
  isLoading :: bool
  playHistory :: "song list"
  abortControllerRef :: "nat option"
  aborted :: "nat list"
  controllers :: nat
  tasks :: "nat \<Rightarrow> task option"
  effects :: "effect list"

definition emit :: "effect list \<Rightarrow> ctx_state \<Rightarrow> ctx_state" where
  "emit es s = s \<lparr> effects := effects s @ es \<rparr>"

section \<open>Search\<close>

text \<open>
  \<^verbatim>\<open>!searchTerm.trim()\<close>: the term is empty once white space and line terminators are
  trimmed, that is, it consists of such characters only. \<open>ws_length s\<close> is the number of
  bytes of the white-space character at the head of \<open>s\<close>, 0 if there is none.
\<close>

definition ws_length :: "string \<Rightarrow> nat" where
  "ws_length s =
     (case map of_char s of
        [] \<Rightarrow> 0
      | a # r \<Rightarrow>
          if (9 \<le> a \<and> a \<le> 13) \<or> a = (32 :: nat) then 1
          else (case r of
             [] \<Rightarrow> 0
           | b # r' \<Rightarrow>
               if a = 0xC2 \<and> b = 0xA0 then 2
               else (case r' of
                  [] \<Rightarrow> 0
                | c # _ \<Rightarrow>
                    if a = 0xE1 \<and> b = 0x9A \<and> c = 0x80 then 3
                    else if a = 0xE2 \<and> b = 0x80 \<and>
                      ((0x80 \<le> c \<and> c \<le> 0x8A) \<or> c = 0xA8 \<or> c = 0xA9 \<or> c = 0xAF) then 3
                    else if a = 0xE2 \<and> b = 0x81 \<and> c = 0x9F then 3
                    else if a = 0xE3 \<and> b = 0x80 \<and> c = 0x80 then 3
                    else if a = 0xEF \<and> b = 0xBB \<and> c = 0xBF then 3
                    else 0)))"

function trims_to_empty :: "string \<Rightarrow> bool" where
  "trims_to_empty s =
     (if s = [] then True
      else if ws_length s = 0 then False
      else trims_to_empty (drop (ws_length s) s))"
  by pat_completeness auto

termination
  by (relation "measure length") auto

declare trims_to_empty.simps [simp del]

text \<open>
  A provider's search response \<^verbatim>\<open>{ success, data: { code, data } }\<close>. The inner
  \<^verbatim>\<open>data\<close> is an array of items or something that is not an array: a single item, or
  nothing (\<open>NotArray None\<close>).
\<close>

datatype search_items = Items "song list" | NotArray "song option"

record search_data =
  sd_code :: int
  sd_data :: search_items

record search_result =
  sr_success :: bool
  sr_data :: "search_data option"

definition search_failed_msg :: string where
  "search_failed_msg =
     [CHR 0xE6, CHR 0x90, CHR 0x9C, CHR 0xE7, CHR 0xB4, CHR 0xA2,
      CHR 0xE5, CHR 0xA4, CHR 0xB1, CHR 0xE8, CHR 0xB4, CHR 0xA5]"

text \<open>The two \<^verbatim>\<open>if\<close> blocks of \<^verbatim>\<open>onSearch\<close>: what each pushes on \<^verbatim>\<open>combinedSongs\<close>, or the
  error it throws.\<close>

definition wy_songs :: "nat \<Rightarrow> search_result \<Rightarrow> js_error + song obj list" where
  "wy_songs base wyResult =
     (if \<not> sr_success wyResult then Inr []
      else case sr_data wyResult of
        None \<Rightarrow> Inl (type_error ''code'')
      | Some d \<Rightarrow>
          if sd_code d \<noteq> 200 then Inr []
          else (case sd_data d of
             Items items \<Rightarrow> Inr (map_alloc base tag_wy items)
           | NotArray None \<Rightarrow> Inl (type_error ''map'')
           | NotArray (Some x) \<Rightarrow> Inl (JsError ''TypeError'' ''wyResult.data.data.map is not a function'')))"

definition qq_songs :: "nat \<Rightarrow> search_result \<Rightarrow> js_error + song obj list" where
  "qq_songs base qqResult =
     (if \<not> sr_success qqResult then Inr []
      else case sr_data qqResult of
        None \<Rightarrow> Inl (type_error ''code'')
      | Some d \<Rightarrow>
          if sd_code d \<noteq> 200 then Inr []
          else (case sd_data d of
             Items items \<Rightarrow> Inr (map_alloc base tag_qq items)
           | NotArray None \<Rightarrow> Inl (type_error ''song'')
           | NotArray (Some x) \<Rightarrow> Inr (map_alloc base tag_qq [x])))"

text \<open>
  \<^verbatim>\<open>Promise.all\<close> of the two requests: it resolves when both do, and it rejects with
  the error of the request that rejects first. \<open>qq_first\<close> tells that the request of
  provider B settles before that of provider A.
\<close>

definition Promise_all ::
  "bool \<Rightarrow> 'a settled \<Rightarrow> 'a settled \<Rightarrow> js_error + 'a \<times> 'a" where
  "Promise_all qq_first wy qq =
     (case wy of
        Rejected e \<Rightarrow>
          (case qq of
             Rejected e' \<Rightarrow> Inl (if qq_first then e' else e)
           | Resolved qqResult \<Rightarrow> Inl e)
      | Resolved wyResult \<Rightarrow>
          (case qq of
             Rejected e' \<Rightarrow> Inl e'
           | Resolved qqResult \<Rightarrow> Inr (wyResult, qqResult)))"

text \<open>The body of the \<^verbatim>\<open>try\<close>: the two requests are awaited together, then the two
  blocks run in order.\<close>

definition search_try ::
  "bool \<Rightarrow> search_result settled \<Rightarrow> search_result settled \<Rightarrow> js_error + song obj list" where
  "search_try qq_first wy qq =
     (case Promise_all qq_first wy qq of
        Inl e \<Rightarrow> Inl e
      | Inr (wyResult, qqResult) \<Rightarrow>
          (case wy_songs 0 wyResult of
             Inl e \<Rightarrow> Inl e
           | Inr ws \<Rightarrow>
               (case qq_songs (length ws) qqResult of
                  Inl e \<Rightarrow> Inl e
                | Inr qs \<Rightarrow> Inr (interleaveResults (ws @ qs)))))"

text \<open>\<^verbatim>\<open>onSearch\<close>, for the way the two requests settle.\<close>

definition onSearch ::
  "closure \<Rightarrow> bool \<Rightarrow> search_result settled \<Rightarrow> search_result settled \<Rightarrow> ctx_state
     \<Rightarrow> ctx_state" where
  "onSearch cl qq_first wy qq s =
     (if trims_to_empty (c_searchTerm cl) then s
      else
        let s1 = emit
              [SearchReq (''/api/sby?platform=wy&term='' @ encodeURIComponent (c_searchTerm cl)),
               SearchReq (''/api/sby?platform=qq&term='' @ encodeURIComponent (c_searchTerm cl))]
              (s \<lparr> isSearching := True \<rparr>);
            s2 = (case search_try qq_first wy qq of
                    Inr merged \<Rightarrow> s1 \<lparr> songs := map snd merged \<rparr>
                  | Inl e \<Rightarrow> emit [ErrorMsg search_failed_msg, ConsoleError [] e] s1)
        in s2 \<lparr> isSearching := False \<rparr>)"

definition init_state :: ctx_state where
  "init_state =
     \<lparr> songs = [], currentSong = None, isPlaying = False, isSearching = False,
       isLoading = False, playHistory = [], abortControllerRef = None, aborted = [],
       controllers = 0, tasks = (\<lambda>n. None), effects = [] \<rparr>"

section \<open>URL validation\<close>

text \<open>
  \<^verbatim>\<open>isValidUrl\<close> calls the platform's \<^verbatim>\<open>new URL(url)\<close> with no base and reports whether it
  threw. The constructor is the basic URL parser of the WHATWG URL Standard; its failure
  conditions are written out here state by state. One part is left as a parameter: the
  host parser (IDNA, IPv4 and IPv6 literals, forbidden code points), \<open>hp opaque text\<close>,
  which tells whether a non-empty host text parses. Since every delimiter of the parser
  is an ASCII character, the parser reads the UTF-8 bytes of the string as it reads its
  code points.
\<close>

type_synonym host_parser = "bool \<Rightarrow> string \<Rightarrow> bool"

definition ascii_alpha :: "char \<Rightarrow> bool" where
  "ascii_alpha c =
     (let n = (of_char c :: nat) in (65 \<le> n \<and> n \<le> 90) \<or> (97 \<le> n \<and> n \<le> 122))"

definition ascii_digit :: "char \<Rightarrow> bool" where
  "ascii_digit c = (let n = (of_char c :: nat) in 48 \<le> n \<and> n \<le> 57)"

definition ascii_lower :: "char \<Rightarrow> char" where
  "ascii_lower c =
     (let n = (of_char c :: nat) in if 65 \<le> n \<and> n \<le> 90 then char_of (n + 32) else c)"

definition c0_or_space :: "char \<Rightarrow> bool" where
  "c0_or_space c = ((of_char c :: nat) \<le> 32)"

definition tab_or_newline :: "char \<Rightarrow> bool" where
  "tab_or_newline c = (c = CHR 0x09 \<or> c = CHR 0x0A \<or> c = CHR 0x0D)"

text \<open>Leading and trailing C0 controls and spaces are removed, then every tab and
  newline.\<close>

definition preprocess :: "string \<Rightarrow> string" where
  "preprocess input =
     filter (\<lambda>c. \<not> tab_or_newline c)
       (rev (dropWhile c0_or_space (rev (dropWhile c0_or_space input))))"

definition scheme_char :: "char \<Rightarrow> bool" where
  "scheme_char c =
     (ascii_alpha c \<or> ascii_digit c \<or> c = CHR ''+'' \<or> c = CHR ''-'' \<or> c = CHR ''.'')"

text \<open>The scheme state: the scheme read so far, and the input left. \<open>None\<close> is the
  way to the no-scheme state, which fails when there is no base URL.\<close>

fun scheme_state :: "string \<Rightarrow> string \<Rightarrow> (string \<times> string) option" where
  "scheme_state buffer [] = None"
| "scheme_state buffer (c # cs) =
     (if scheme_char c then scheme_state (buffer @ [ascii_lower c]) cs
      else if c = CHR '':'' then Some (buffer, cs)
      else None)"

text \<open>The scheme start state.\<close>

definition split_scheme :: "string \<Rightarrow> (string \<times> string) option" where
  "split_scheme input =
     (case input of
        [] \<Rightarrow> None
      | c # cs \<Rightarrow> if ascii_alpha c then scheme_state [ascii_lower c] cs else None)"

definition special_schemes :: "string list" where
  "special_schemes = [''ftp'', ''file'', ''http'', ''https'', ''ws'', ''wss'']"

definition slash_or_backslash :: "char \<Rightarrow> bool" where
  "slash_or_backslash c = (c = CHR ''/'' \<or> c = CHR 0x5C)"

text \<open>The characters that end the authority: \<^verbatim>\<open>/ ? #\<close>, and the backslash in a special
  URL.\<close>

definition authority_end :: "bool \<Rightarrow> char \<Rightarrow> bool" where
  "authority_end special c =
     (c = CHR ''/'' \<or> c = CHR ''?'' \<or> c = CHR ''#'' \<or> (special \<and> c = CHR 0x5C))"

text \<open>The port state: digits only, and a value of at most 65535.\<close>

definition port_ok :: "string \<Rightarrow> bool" where
  "port_ok buffer =
     (list_all ascii_digit buffer \<and>
      (buffer = [] \<or> foldl (\<lambda>n c. 10 * n + (of_char c - 48)) (0 :: nat) buffer \<le> 65535))"

text \<open>The host state reads up to the first colon that is not inside brackets: the host
  text, and the port text if there is a colon.\<close>

fun host_state :: "bool \<Rightarrow> string \<Rightarrow> string \<Rightarrow> string \<times> string option" where
  "host_state insideBrackets buffer [] = (buffer, None)"
| "host_state insideBrackets buffer (c # cs) =
     (if c = CHR '':'' \<and> \<not> insideBrackets then (buffer, Some cs)
      else host_state
             (if c = CHR ''['' then True else if c = CHR '']'' then False else insideBrackets)
             (buffer @ [c]) cs)"

definition hostport_ok :: "host_parser \<Rightarrow> bool \<Rightarrow> string \<Rightarrow> bool" where
  "hostport_ok hp special text =
     (case host_state False [] text of
        (buffer, Some port) \<Rightarrow> buffer \<noteq> [] \<and> hp (\<not> special) buffer \<and> port_ok port
      | (buffer, None) \<Rightarrow> if buffer = [] then \<not> special else hp (\<not> special) buffer)"

text \<open>The authority state: what precedes the last \<^verbatim>\<open>@\<close> is the credentials; a host
  must follow them.\<close>

definition authority_ok :: "host_parser \<Rightarrow> bool \<Rightarrow> string \<Rightarrow> bool" where
  "authority_ok hp special input =
     (let authority = takeWhile (\<lambda>c. \<not> authority_end special c) input
      in if CHR ''@'' \<in> set authority
         then (let text = rev (takeWhile (\<lambda>c. c \<noteq> CHR ''@'') (rev authority))
               in text \<noteq> [] \<and> hostport_ok hp special text)
         else hostport_ok hp special authority)"

definition windows_drive_letter :: "string \<Rightarrow> bool" where
  "windows_drive_letter buffer =
     (case buffer of
        [a, b] \<Rightarrow> ascii_alpha a \<and> (b = CHR '':'' \<or> b = CHR ''|'')
      | _ \<Rightarrow> False)"

text \<open>The file, file slash and file host states.\<close>

definition file_ok :: "host_parser \<Rightarrow> string \<Rightarrow> bool" where
  "file_ok hp input =
     (case input of
        a # b # rest \<Rightarrow>
          if slash_or_backslash a \<and> slash_or_backslash b then
            (let buffer = takeWhile (\<lambda>c. \<not> authority_end True c) rest
             in if windows_drive_letter buffer then True
                else if buffer = [] then True
                else hp False buffer)
          else True
      | _ \<Rightarrow> True)"

text \<open>Whether \<^verbatim>\<open>new URL(input)\<close> returns. The path, query and fragment states never
  fail.\<close>

definition URL_parses :: "host_parser \<Rightarrow> string \<Rightarrow> bool" where
  "URL_parses hp input =
     (case split_scheme (preprocess input) of
        None \<Rightarrow> False
      | Some (scheme, rest) \<Rightarrow>
          if scheme = ''file'' then file_ok hp rest
          else if scheme \<in> set special_schemes
          then authority_ok hp True (dropWhile slash_or_backslash rest)
          else (case rest of
                  a # b # rest' \<Rightarrow>
                    if a = CHR ''/'' \<and> b = CHR ''/'' then authority_ok hp False rest' else True
                | _ \<Rightarrow> True))"

text \<open>\<^verbatim>\<open>new URL(url)\<close>: the parsed URL is not used, so success is \<open>Inr ()\<close>.\<close>

definition new_URL :: "host_parser \<Rightarrow> string \<Rightarrow> js_error + unit" where
  "new_URL hp input =
     (if URL_parses hp input then Inr () else Inl (JsError ''TypeError'' ''Invalid URL''))"

definition isValidUrl :: "host_parser \<Rightarrow> string \<Rightarrow> bool" where
  "isValidUrl hp u = (case new_URL hp u of Inr _ \<Rightarrow> True | Inl _ \<Rightarrow> False)"

section \<open>Resolving a song: \<^verbatim>\<open>onPlaySong\<close>\<close>

text \<open>The detail response \<^verbatim>\<open>{ success, data }\<close>: provider A ("wy") puts \<^verbatim>\<open>mp3\<close>,
  \<^verbatim>\<open>img\<close> and \<^verbatim>\<open>lyric\<close> in \<^verbatim>\<open>data\<close>, provider B ("qq") nests \<^verbatim>\<open>url\<close> and \<^verbatim>\<open>cover\<close>
  in \<^verbatim>\<open>data.data\<close>.\<close>

record play_data =
  p_code :: int
  p_msg :: "string option"
  p_mp3 :: "string option"
  p_img :: "string option"
  p_lyric :: "string list option"
  p_data :: "qq_detail option"

record play_result =
  pr_success :: bool
  pr_data :: "play_data option"

text \<open>The message texts of the source, as their UTF-8 bytes.\<close>

definition invalid_url_msg :: string where
  "invalid_url_msg =
     [CHR 0xE6, CHR 0x97, CHR 0xA0, CHR 0xE6, CHR 0x95, CHR 0x88, CHR 0xE7, CHR 0x9A, CHR 0x84,
      CHR 0xE9, CHR 0x9F, CHR 0xB3, CHR 0xE9, CHR 0xA2, CHR 0x91] @ '' URL''"

definition detail_failed_msg :: string where
  "detail_failed_msg =
     [CHR 0xE8, CHR 0x8E, CHR 0xB7, CHR 0xE5, CHR 0x8F, CHR 0x96, CHR 0xE6, CHR 0xAD, CHR 0x8C,
      CHR 0xE6, CHR 0x9B, CHR 0xB2, CHR 0xE8, CHR 0xAF, CHR 0xA6, CHR 0xE6, CHR 0x83, CHR 0x85,
      CHR 0xE5, CHR 0xA4, CHR 0xB1, CHR 0xE8, CHR 0xB4, CHR 0xA5]"

definition try_other_song :: string where
  "try_other_song =
     [CHR 0xEF, CHR 0xBC, CHR 0x8C, CHR 0xE8, CHR 0xAF, CHR 0xB7, CHR 0xE5, CHR 0xB0, CHR 0x9D,
      CHR 0xE8, CHR 0xAF, CHR 0x95, CHR 0xE5, CHR 0x85, CHR 0xB6, CHR 0xE4, CHR 0xBB, CHR 0x96,
      CHR 0xE6, CHR 0xAD, CHR 0x8C, CHR 0xE6, CHR 0x9B, CHR 0xB2]"

definition audio_failed_msg :: string where
  "audio_failed_msg =
     [CHR 0xE9, CHR 0x9F, CHR 0xB3, CHR 0xE9, CHR 0xA2, CHR 0x91, CHR 0xE5, CHR 0x8A, CHR 0xA0,
      CHR 0xE8, CHR 0xBD, CHR 0xBD, CHR 0xE5, CHR 0xA4, CHR 0xB1, CHR 0xE8, CHR 0xB4, CHR 0xA5]
     @ try_other_song"

definition play_failed_msg :: string where
  "play_failed_msg =
     [CHR 0xE6, CHR 0x92, CHR 0xAD, CHR 0xE6, CHR 0x94, CHR 0xBE,
      CHR 0xE5, CHR 0xA4, CHR 0xB1, CHR 0xE8, CHR 0xB4, CHR 0xA5]"

text \<open>The fallback text of the last \<^verbatim>\<open>message.error\<close>, with the three replacement
  characters that the source file has in it.\<close>

definition play_failed_fallback_msg :: string where
  "play_failed_fallback_msg =
     [CHR 0xE6, CHR 0x92, CHR 0xAD, CHR 0xE6, CHR 0x94, CHR 0xBE,
      CHR 0xEF, CHR 0xBF, CHR 0xBD, CHR 0xEF, CHR 0xBF, CHR 0xBD, CHR 0xEF, CHR 0xBF, CHR 0xBD,
      CHR 0xE8, CHR 0xB4, CHR 0xA5]
     @ try_other_song"

definition MAX_RETRIES :: nat where
  "MAX_RETRIES = 3"

definition retrying_msg :: "nat \<Rightarrow> string" where
  "retrying_msg retryCount =
     [CHR 0xE6, CHR 0xAD, CHR 0xA3, CHR 0xE5, CHR 0x9C, CHR 0xA8, CHR 0xE9, CHR 0x87, CHR 0x8D,
      CHR 0xE8, CHR 0xAF, CHR 0x95]
     @ '' ('' @ digits retryCount @ ''/'' @ digits MAX_RETRIES @ '')...''"

text \<open>\<^verbatim>\<open>currentSong?.url\<close>: \<^verbatim>\<open>undefined\<close> when there is no current song.\<close>

definition url_of :: "song option \<Rightarrow> string option" where
  "url_of c = (case c of None \<Rightarrow> None | Some sg \<Rightarrow> url sg)"

text \<open>The \<^verbatim>\<open>requestUrl\<close> of \<^verbatim>\<open>tryPlay\<close>: the one the song carries, or one built from
  the parameters of the call.\<close>

definition play_requestUrl :: "closure \<Rightarrow> song \<Rightarrow> nat option \<Rightarrow> nat option \<Rightarrow> string" where
  "play_requestUrl cl sg index qual =
     or_else (requestUrl sg)
       (''/api/sby?platform='' @ show_str (platform sg) @
        ''&term='' @ encodeURIComponent (or_else (searchTerm sg) (c_searchTerm cl)) @
        ''&index='' @ show_num (or_num (searchIndex sg) index) @
        (if truthy_num qual then ''&quality='' @ show_num qual else ''''))"

text \<open>\<^verbatim>\<open>updatedSong\<close>, for a response \<open>d\<close> with the new URL already read from it.\<close>

definition updatedSong ::
  "closure \<Rightarrow> song \<Rightarrow> nat option \<Rightarrow> nat option \<Rightarrow> play_data \<Rightarrow> string option \<Rightarrow> song" where
  "updatedSong cl sg index qual d newUrl =
     sg \<lparr> song_id := or_str (case p_data d of None \<Rightarrow> None | Some dd \<Rightarrow> d_id dd) (song_id sg),
          url := newUrl,
          cover := (if platform sg = Some ''qq''
                    then (case p_data d of None \<Rightarrow> None | Some dd \<Rightarrow> d_cover dd)
                    else p_img d),
          lyrics := (if platform sg = Some ''qq'' then Some []
                     else Some (case p_lyric d of None \<Rightarrow> [] | Some l \<Rightarrow> l)),
          searchTerm := Some (or_else (searchTerm sg) (c_searchTerm cl)),
          searchIndex := or_num (searchIndex sg) index,
          details := (if platform sg = Some ''qq'' then p_data d else None),
          requestUrl := Some (play_requestUrl cl sg index qual),
          quality := qual \<rparr>"

text \<open>
  The \<^verbatim>\<open>try\<close> block of \<^verbatim>\<open>tryPlay\<close> from the point where the fetch has settled. \<open>Inl e\<close>:
  the block throws \<open>e\<close>. \<open>Inr None\<close>: it returns \<^verbatim>\<open>true\<close> at the same-URL check, with
  nothing set. \<open>Inr (Some u)\<close>: it reaches the four lines that commit \<open>u\<close>.
\<close>

definition try_block ::
  "host_parser \<Rightarrow> closure \<Rightarrow> song \<Rightarrow> nat option \<Rightarrow> nat option \<Rightarrow> play_result settled
     \<Rightarrow> js_error + song option" where
  "try_block hp cl sg index qual outcome =
     (case outcome of
        Rejected e \<Rightarrow> Inl e
      | Resolved r \<Rightarrow>
          (case pr_data r of
             None \<Rightarrow> Inl (type_error (if pr_success r then ''code'' else ''msg''))
           | Some d \<Rightarrow>
               if pr_success r \<and> p_code d = 200 then
                 (if platform sg = Some ''qq'' \<and> p_data d = None then Inl (type_error ''url'')
                  else
                    let newUrl = (if platform sg = Some ''qq''
                                  then (case p_data d of None \<Rightarrow> None | Some dd \<Rightarrow> d_url dd)
                                  else p_mp3 d)
                    in if url_of (c_currentSong cl) = newUrl then Inr None
                       else
                         let u = updatedSong cl sg index qual d newUrl
                         in if \<not> truthy_str (url u) \<or> \<not> isValidUrl hp (show_str (url u))
                            then Inl (JsError ''Error'' invalid_url_msg)
                            else Inr (Some u))
               else Inl (JsError ''Error'' (or_else (p_msg d) detail_failed_msg))))"

text \<open>The first test of the \<^verbatim>\<open>catch\<close> of \<^verbatim>\<open>tryPlay\<close>.\<close>

definition is_cors :: "js_error \<Rightarrow> bool" where
  "is_cors e = (err_name e = ''SecurityError'' \<or> sublist ''CORS'' (err_message e))"

definition set_task :: "nat \<Rightarrow> task \<Rightarrow> ctx_state \<Rightarrow> ctx_state" where
  "set_task rid t s = s \<lparr> tasks := (tasks s)(rid \<mapsto> t) \<rparr>"

definition replace_song :: "song \<Rightarrow> song list \<Rightarrow> song list" where
  "replace_song u prev = map (\<lambda>sg. if isSameSong sg u then u else sg) prev"

definition updateSongData :: "closure \<Rightarrow> song \<Rightarrow> ctx_state \<Rightarrow> ctx_state" where
  "updateSongData cl u s =
     (let s1 = s \<lparr> playHistory := replace_song u (playHistory s) \<rparr>;
          s2 = (if list_ex (\<lambda>sg. isSameSong sg u) (c_playQueue cl)
                then emit [ToggleQueue u, ToggleQueue u] s1 else s1)
      in s2 \<lparr> songs := replace_song u (songs s2) \<rparr>)"

text \<open>Lines 197 to 200: the commit of a resolved song by resolution \<open>rid\<close>.\<close>

definition commit :: "nat \<Rightarrow> closure \<Rightarrow> bool \<Rightarrow> song \<Rightarrow> ctx_state \<Rightarrow> ctx_state" where
  "commit rid cl shouldAutoPlay u s =
     (let s1 = updateSongData cl u s;
          s2 = emit [SetCurrentSong rid u] (s1 \<lparr> currentSong := Some u \<rparr>);
          s3 = s2 \<lparr> isPlaying := shouldAutoPlay \<rparr>
      in emit [AddToHistory rid u] (s3 \<lparr> playHistory := addToHistory cl u (playHistory s3) \<rparr>))"

definition shouldAutoPlay :: "task \<Rightarrow> bool" where
  "shouldAutoPlay t = (if t_isRetry t then c_isPlaying (t_closure t) else True)"

text \<open>The \<^verbatim>\<open>finally\<close> block of \<^verbatim>\<open>onPlaySong\<close>; the call is over.\<close>

definition finish :: "nat \<Rightarrow> task \<Rightarrow> ctx_state \<Rightarrow> ctx_state" where
  "finish rid t s =
     (let s1 = (if rid \<in> set (aborted s) then s \<lparr> abortControllerRef := None \<rparr> else s)
      in set_task rid (t \<lparr> t_phase := Finished \<rparr>) (s1 \<lparr> isLoading := False \<rparr>))"

text \<open>\<^verbatim>\<open>tryPlay\<close> up to its \<^verbatim>\<open>await\<close>: the request is issued.\<close>

definition start_attempt :: "nat \<Rightarrow> task \<Rightarrow> ctx_state \<Rightarrow> ctx_state" where
  "start_attempt rid t s =
     emit [FetchReq rid (play_requestUrl (t_closure t) (t_song t) (t_index t) (t_quality t))]
       (set_task rid (t \<lparr> t_phase := AwaitFetch \<rparr>) s)"

text \<open>The loop is left with its condition false: \<^verbatim>\<open>throw lastError || new Error(...)\<close>,
  caught by the \<^verbatim>\<open>catch\<close> of \<^verbatim>\<open>onPlaySong\<close>.\<close>

definition give_up :: "nat \<Rightarrow> task \<Rightarrow> ctx_state \<Rightarrow> ctx_state" where
  "give_up rid t s =
     (let error = (case t_lastError t of None \<Rightarrow> JsError ''Error'' play_failed_msg | Some e \<Rightarrow> e);
          s1 = (if err_name error \<noteq> ''AbortError''
                then emit [ConsoleError (play_failed_msg @ '':'') error,
                           ErrorMsg (if err_message error = [] then play_failed_fallback_msg
                                     else err_message error)] s
                else s)
      in finish rid t s1)"

text \<open>The head of the \<^verbatim>\<open>while\<close> loop.\<close>

definition loop_head :: "nat \<Rightarrow> task \<Rightarrow> ctx_state \<Rightarrow> ctx_state" where
  "loop_head rid t s =
     (if t_retryCount t < MAX_RETRIES then start_attempt rid t s else give_up rid t s)"

text \<open>The loop body after \<^verbatim>\<open>tryPlay\<close> has returned \<^verbatim>\<open>false\<close>.\<close>

definition after_failure :: "nat \<Rightarrow> task \<Rightarrow> ctx_state \<Rightarrow> ctx_state" where
  "after_failure rid t s =
     (if rid \<in> set (aborted s) then finish rid t s
      else
        let t1 = t \<lparr> t_retryCount := Suc (t_retryCount t) \<rparr>
        in if t_retryCount t1 < MAX_RETRIES
           then emit [InfoMsg (retrying_msg (t_retryCount t1)), DelayReq rid 1000]
                  (set_task rid (t1 \<lparr> t_phase := AwaitTimer \<rparr>) s)
           else loop_head rid t1 s)"

text \<open>The \<^verbatim>\<open>catch\<close> of \<^verbatim>\<open>tryPlay\<close>; it returns \<^verbatim>\<open>false\<close> on each of its paths.\<close>

definition catch_tryPlay :: "nat \<Rightarrow> task \<Rightarrow> js_error \<Rightarrow> ctx_state \<Rightarrow> ctx_state" where
  "catch_tryPlay rid t e s =
     (if is_cors e
      then after_failure rid t
             (emit [ConsoleError ''CORS error detected:'' e, ErrorMsg audio_failed_msg] s
                \<lparr> isPlaying := False \<rparr>)
      else if err_name e = ''AbortError'' then after_failure rid t s
      else after_failure rid (t \<lparr> t_lastError := Some e \<rparr>) s)"

text \<open>The fetch of resolution \<open>rid\<close> settles and the call goes on from its \<^verbatim>\<open>await\<close>.\<close>

definition resume_fetch :: "host_parser \<Rightarrow> nat \<Rightarrow> play_result settled \<Rightarrow> ctx_state \<Rightarrow> ctx_state" where
  "resume_fetch hp rid outcome s =
     (case tasks s rid of
        None \<Rightarrow> s
      | Some t \<Rightarrow>
          if t_phase t \<noteq> AwaitFetch then s
          else (case try_block hp (t_closure t) (t_song t) (t_index t) (t_quality t) outcome of
                  Inr None \<Rightarrow> finish rid t s
                | Inr (Some u) \<Rightarrow> finish rid t (commit rid (t_closure t) (shouldAutoPlay t) u s)
                | Inl e \<Rightarrow> catch_tryPlay rid t e s))"

text \<open>The one-second timer of resolution \<open>rid\<close> fires.\<close>

definition resume_timer :: "nat \<Rightarrow> ctx_state \<Rightarrow> ctx_state" where
  "resume_timer rid s =
     (case tasks s rid of
        None \<Rightarrow> s
      | Some t \<Rightarrow> if t_phase t \<noteq> AwaitTimer then s else loop_head rid t s)"

definition abort :: "nat \<Rightarrow> ctx_state \<Rightarrow> ctx_state" where
  "abort cid s = emit [AbortReq cid] (s \<lparr> aborted := cid # aborted s \<rparr>)"

text \<open>
  A call of \<^verbatim>\<open>onPlaySong\<close>, up to its first \<^verbatim>\<open>await\<close>. \<open>cl\<close> is the render whose
  \<^verbatim>\<open>onPlaySong\<close> is called. The new \<^verbatim>\<open>AbortController\<close> takes the next number.
\<close>

definition onPlaySong ::
  "closure \<Rightarrow> song \<Rightarrow> nat option \<Rightarrow> nat option \<Rightarrow> bool \<Rightarrow> ctx_state \<Rightarrow> ctx_state" where
  "onPlaySong cl sg index qual isRetry s =
     (if c_isLoading cl \<and> \<not> isRetry then s
      else
        let currentController = controllers s;
            s0 = s \<lparr> controllers := Suc currentController \<rparr>;
            t = \<lparr> t_closure = cl, t_song = sg, t_index = index, t_quality = qual,
                  t_isRetry = isRetry, t_retryCount = 0, t_lastError = None,
                  t_phase = AwaitFetch \<rparr>
        in (case abortControllerRef s0 of
              None \<Rightarrow>
                loop_head currentController t
                  (s0 \<lparr> abortControllerRef := Some currentController, isLoading := True \<rparr>)
            | Some previous \<Rightarrow>
                if url_of (c_currentSong cl) = url sg \<and> \<not> isRetry then s0
                else loop_head currentController t
                       ((abort previous s0)
                          \<lparr> abortControllerRef := Some currentController, isLoading := True \<rparr>)))"

text \<open>What happens to the context: a call of \<^verbatim>\<open>onPlaySong\<close>, a fetch that settles, a
  timer that fires. Each runs to the next \<^verbatim>\<open>await\<close> of its call before another starts.\<close>

datatype event =
    Call closure song "nat option" "nat option" bool
  | FetchSettled nat "play_result settled"
  | TimerFired nat

fun step :: "host_parser \<Rightarrow> ctx_state \<Rightarrow> event \<Rightarrow> ctx_state" where
  "step hp s (Call cl sg index qual isRetry) = onPlaySong cl sg index qual isRetry s"
| "step hp s (FetchSettled rid outcome) = resume_fetch hp rid outcome s"
| "step hp s (TimerFired rid) = resume_timer rid s"

definition run :: "host_parser \<Rightarrow> ctx_state \<Rightarrow> event list \<Rightarrow> ctx_state" where
  "run hp s evs = foldl (step hp) s evs"

text \<open>The render of a state: what the functions of the next render capture.\<close>

definition render :: "ctx_state \<Rightarrow> string \<Rightarrow> nat option \<Rightarrow> song list \<Rightarrow> closure" where
  "render s term qual queue =
     \<lparr> c_isLoading = isLoading s, c_currentSong = currentSong s, c_isPlaying = isPlaying s,
       c_searchTerm = term, c_selectedQuality = qual, c_playQueue = queue \<rparr>"

text \<open>
  The contract of \<^verbatim>\<open>fetch\<close> with an \<^verbatim>\<open>AbortSignal\<close>: once the signal of a request is
  aborted, the request settles only by rejecting with an \<^verbatim>\<open>AbortError\<close>.
\<close>

definition admissible :: "ctx_state \<Rightarrow> event \<Rightarrow> bool" where
  "admissible s ev =
     (case ev of
        FetchSettled rid outcome \<Rightarrow>
          (if rid \<in> set (aborted s)
           then (case outcome of Rejected e \<Rightarrow> err_name e = ''AbortError'' | Resolved r \<Rightarrow> False)
           else True)
      | _ \<Rightarrow> True)"

fun admissible_run :: "host_parser \<Rightarrow> ctx_state \<Rightarrow> event list \<Rightarrow> bool" where
  "admissible_run hp s [] = True"
| "admissible_run hp s (ev # evs) = (admissible s ev \<and> admissible_run hp (step hp s ev) evs)"

section \<open>Notions used in the statements\<close>

text \<open>Adding a sequence of songs, one call of \<^verbatim>\<open>addToHistory\<close> after the other.\<close>

definition add_all :: "closure \<Rightarrow> song list \<Rightarrow> song list \<Rightarrow> song list" where
  "add_all cl sgs prev = foldl (\<lambda>h sg. addToHistory cl sg h) prev sgs"

text \<open>The identity of a song: the triple that \<^verbatim>\<open>isSameSong\<close> compares.\<close>

definition identity :: "song \<Rightarrow> string option \<times> string option \<times> string option" where
  "identity sg = (name sg, singer sg, platform sg)"

text \<open>
  The merge as the specification words it: one item of the first list, then one of the
  second, by rank, and the rest of the longer list once the shorter is used up.
\<close>

fun interleave :: "'a list \<Rightarrow> 'a list \<Rightarrow> 'a list" where
  "interleave [] ys = ys"
| "interleave xs [] = xs"
| "interleave (x # xs) (y # ys) = x # y # interleave xs ys"

text \<open>A response is usable when \<^verbatim>\<open>success && data.code === 200\<close>; it is unusable, with
  no error thrown, when \<^verbatim>\<open>success\<close> is false or \<^verbatim>\<open>data\<close> carries another code.\<close>

definition unusable :: "search_result \<Rightarrow> bool" where
  "unusable r =
     (if sr_success r then (case sr_data r of None \<Rightarrow> False | Some d \<Rightarrow> sd_code d \<noteq> 200)
      else True)"

definition usable_with :: "song list \<Rightarrow> search_result" where
  "usable_with items =
     \<lparr> sr_success = True, sr_data = Some \<lparr> sd_code = 200, sd_data = Items items \<rparr> \<rparr>"

definition search_requests :: "closure \<Rightarrow> effect list" where
  "search_requests cl =
     [SearchReq (''/api/sby?platform=wy&term='' @ encodeURIComponent (c_searchTerm cl)),
      SearchReq (''/api/sby?platform=qq&term='' @ encodeURIComponent (c_searchTerm cl))]"

text \<open>
  The scheme of the generic URL syntax, as the specification's "standard URL syntax"
  has it: a letter, then letters, digits, \<^verbatim>\<open>+\<close>, \<^verbatim>\<open>-\<close> or \<^verbatim>\<open>.\<close>, up to a colon.
\<close>

definition has_scheme :: "string \<Rightarrow> bool" where
  "has_scheme s =
     (let scheme = takeWhile (\<lambda>c. c \<noteq> CHR '':'') s
      in length scheme < length s \<and> scheme \<noteq> [] \<and> ascii_alpha (hd scheme) \<and>
         list_all scheme_char scheme)"

text \<open>The schemes whose URLs need a host: the special schemes but \<^verbatim>\<open>file\<close>.\<close>

definition host_required_schemes :: "string list" where
  "host_required_schemes = [''ftp'', ''http'', ''https'', ''ws'', ''wss'']"

text \<open>The stream URL that the try block reads from a usable response.\<close>

definition newUrl_of :: "song \<Rightarrow> play_data \<Rightarrow> string option" where
  "newUrl_of sg d =
     (if platform sg = Some ''qq'' then (case p_data d of None \<Rightarrow> None | Some dd \<Rightarrow> d_url dd)
      else p_mp3 d)"

text \<open>The URL does not pass the test of line 193: it is missing, empty or malformed.\<close>

definition bad_url :: "host_parser \<Rightarrow> string option \<Rightarrow> bool" where
  "bad_url hp u = (case u of None \<Rightarrow> True | Some v \<Rightarrow> v = [] \<or> \<not> isValidUrl hp v)"

definition is_commit :: "nat \<Rightarrow> effect \<Rightarrow> bool" where
  "is_commit rid e =
     (case e of SetCurrentSong r u \<Rightarrow> r = rid | AddToHistory r u \<Rightarrow> r = rid | _ \<Rightarrow> False)"

definition commits_of :: "nat \<Rightarrow> effect list \<Rightarrow> effect list" where
  "commits_of rid es = filter (is_commit rid) es"

text \<open>The part of the state that a commit writes: the current song, the history and the
  list of songs.\<close>

definition committed_part :: "ctx_state \<Rightarrow> song option \<times> song list \<times> song list" where
  "committed_part s = (currentSong s, playHistory s, songs s)"

text \<open>The local variables of a call that has issued its first request.\<close>

definition first_attempt :: "closure \<Rightarrow> song \<Rightarrow> nat option \<Rightarrow> nat option \<Rightarrow> bool \<Rightarrow> task" where
  "first_attempt cl sg index qual isRetry =
     \<lparr> t_closure = cl, t_song = sg, t_index = index, t_quality = qual, t_isRetry = isRetry,
       t_retryCount = 0, t_lastError = None, t_phase = AwaitFetch \<rparr>"

text \<open>The requests that a resolution has issued.\<close>

definition is_fetch :: "nat \<Rightarrow> effect \<Rightarrow> bool" where
  "is_fetch rid e = (case e of FetchReq r v \<Rightarrow> r = rid | _ \<Rightarrow> False)"

definition count_fetches :: "nat \<Rightarrow> effect list \<Rightarrow> nat" where
  "count_fetches rid es = length (filter (is_fetch rid) es)"

text \<open>
  How the requests issued by a resolution relate to its retry counter: while a request
  is out, it is the attempt after \<open>retryCount\<close> failed ones; while the timer runs,
  \<open>retryCount\<close> attempts have been made and another is due.
\<close>

definition attempts_ok :: "task \<Rightarrow> nat \<Rightarrow> bool" where
  "attempts_ok t n =
     (case t_phase t of
        AwaitFetch \<Rightarrow> n = Suc (t_retryCount t) \<and> t_retryCount t < MAX_RETRIES
      | AwaitTimer \<Rightarrow> n = t_retryCount t \<and> t_retryCount t < MAX_RETRIES
      | Finished \<Rightarrow> n \<le> MAX_RETRIES)"

definition slot_ok :: "ctx_state \<Rightarrow> nat \<Rightarrow> bool" where
  "slot_ok s rid =
     (case tasks s rid of
        None \<Rightarrow> count_fetches rid (effects s) = 0
      | Some t \<Rightarrow> rid < controllers s \<and> attempts_ok t (count_fetches rid (effects s)))"

definition budget_inv :: "ctx_state \<Rightarrow> bool" where
  "budget_inv s = (\<forall>rid. slot_ok s rid)"

text \<open>An error that the \<^verbatim>\<open>catch\<close> of \<^verbatim>\<open>tryPlay\<close> records as the last error: neither a
  cross-origin error nor an abort.\<close>

definition retryable :: "js_error \<Rightarrow> bool" where
  "retryable e = (if is_cors e then False else err_name e \<noteq> ''AbortError'')"

text \<open>What a call that goes ahead does first: it aborts the controller that the
  reference holds, if any.\<close>

definition abort_of_previous :: "ctx_state \<Rightarrow> effect list" where
  "abort_of_previous s =
     (case abortControllerRef s of None \<Rightarrow> [] | Some previous \<Rightarrow> [AbortReq previous])"

definition queue_refresh :: "closure \<Rightarrow> song \<Rightarrow> effect list" where
  "queue_refresh cl u =
     (if list_ex (\<lambda>sg. isSameSong sg u) (c_playQueue cl) then [ToggleQueue u, ToggleQueue u]
      else [])"

definition shown_error :: "js_error \<Rightarrow> string" where
  "shown_error e = (if err_message e = [] then play_failed_fallback_msg else err_message e)"

text \<open>The events of one resolution: its fetch settling, its timer firing.\<close>

definition event_of :: "nat \<Rightarrow> event \<Rightarrow> bool" where
  "event_of rid ev =
     (case ev of Call cl sg index qual isRetry \<Rightarrow> False
      | FetchSettled r outcome \<Rightarrow> r = rid
      | TimerFired r \<Rightarrow> r = rid)"

section \<open>Example data\<close>

text \<open>Concrete songs, responses, renders and contexts, used to instantiate the theorems below.\<close>

definition emptySong :: song where
  "emptySong =
     \<lparr> song_id = None, name = None, singer = None, song_title = None, author = None,
       cover = None, url = None, lyrics = None, platform = None, searchTerm = None,
       searchIndex = None, requestUrl = None, details = None, quality = None \<rparr>"

definition ex_closure :: closure where
  "ex_closure =
     \<lparr> c_isLoading = False, c_currentSong = None, c_isPlaying = False,
       c_searchTerm = ''abc'', c_selectedQuality = Some 5, c_playQueue = [] \<rparr>"

definition ex_A1 :: song where
  "ex_A1 = emptySong \<lparr> name := Some ''A1'', singer := Some ''X'', platform := Some ''wy'',
     searchIndex := Some 1 \<rparr>"

definition ex_B0 :: song where
  "ex_B0 = emptySong \<lparr> name := Some ''B0'', singer := Some ''Y'', platform := Some ''qq'',
     song_title := Some ''B0'', searchIndex := Some 0 \<rparr>"

definition ex_A0 :: song where
  "ex_A0 = emptySong \<lparr> name := Some ''A0'', author := Some ''X'' \<rparr>"

definition ex_A2 :: song where
  "ex_A2 = emptySong \<lparr> song_title := Some ''A2'', singer := Some ''X'' \<rparr>"

definition ex_raw_A1 :: song where
  "ex_raw_A1 = emptySong \<lparr> name := Some ''A1'', singer := Some ''X'' \<rparr>"

definition ex_raw_B0 :: song where
  "ex_raw_B0 = emptySong \<lparr> song_title := Some ''B0'', singer := Some ''Y'' \<rparr>"

definition ex_search_error :: js_error where
  "ex_search_error = JsError ''TypeError'' ''Failed to fetch''"

text \<open>A host parser for the examples: it accepts the host texts made of ASCII letters,
  digits, hyphens and dots.\<close>

definition ex_host_parser :: host_parser where
  "ex_host_parser opaque text =
     list_all (\<lambda>c. ascii_alpha c \<or> ascii_digit c \<or> c = CHR ''-'' \<or> c = CHR ''.'') text"

definition ex_wy_ok :: play_result where
  "ex_wy_ok = \<lparr> pr_success = True,
      pr_data = Some \<lparr> p_code = 200, p_msg = None, p_mp3 = Some ''http://x/1.mp3'',
        p_img = Some ''http://x/1.jpg'', p_lyric = Some [''la''], p_data = None \<rparr> \<rparr>"

definition ex_qq_ok :: play_result where
  "ex_qq_ok = \<lparr> pr_success = True,
      pr_data = Some \<lparr> p_code = 200, p_msg = None, p_mp3 = None, p_img = None,
        p_lyric = Some [''la la''],
        p_data = Some \<lparr> d_id = Some ''7'', d_url = Some ''http://y/b0.m4a'',
          d_cover = Some ''http://y/b0.jpg'' \<rparr> \<rparr> \<rparr>"

text \<open>The stub that \<^verbatim>\<open>onSearch\<close> makes of provider B's first item.\<close>

definition ex_stub_B0 :: song where
  "ex_stub_B0 = tag_qq ex_raw_B0 0"

definition ex_wy_bad_url :: play_result where
  "ex_wy_bad_url = \<lparr> pr_success = True,
      pr_data = Some \<lparr> p_code = 200, p_msg = None, p_mp3 = Some ''not a url'',
        p_img = None, p_lyric = None, p_data = None \<rparr> \<rparr>"

text \<open>A context whose current song, restored at start-up, carries a URL that is not
  one, and the render of that context.\<close>

definition ex_restored :: ctx_state where
  "ex_restored = init_state \<lparr> currentSong := Some (ex_stub_B0 \<lparr> url := Some ''not a url'' \<rparr>) \<rparr>"

definition ex_restored_closure :: closure where
  "ex_restored_closure = render ex_restored ''abc'' (Some 5) []"

definition ex_stub_A2 :: song where
  "ex_stub_A2 = tag_wy ex_A2 2"

definition ex_wy_busy :: play_result where
  "ex_wy_busy = \<lparr> pr_success = True,
      pr_data = Some \<lparr> p_code = 500, p_msg = Some ''busy'', p_mp3 = None,
        p_img = None, p_lyric = None, p_data = None \<rparr> \<rparr>"

definition ex_wy_data :: play_data where
  "ex_wy_data = \<lparr> p_code = 200, p_msg = None, p_mp3 = Some ''http://x/1.mp3'',
        p_img = Some ''http://x/1.jpg'', p_lyric = Some [''la''], p_data = None \<rparr>"

text \<open>The song that a resolution of \<open>ex_stub_A2\<close> commits on the response \<open>ex_wy_ok\<close>.\<close>

definition ex_resolved_A2 :: song where
  "ex_resolved_A2 =
     updatedSong ex_closure ex_stub_A2 (Some 2) (Some 5) ex_wy_data (Some ''http://x/1.mp3'')"

definition ex_security_error :: js_error where
  "ex_security_error = JsError ''SecurityError'' ''Blocked a frame with origin''"

definition ex_abort_error :: js_error where
  "ex_abort_error = JsError ''AbortError'' ''The user aborted a request.''"

text \<open>The context once a first resolution, of \<open>ex_stub_A2\<close>, has issued its request, and
  the render of that context: it sees the loading flag set.\<close>

definition ex_first_call :: ctx_state where
  "ex_first_call = onPlaySong ex_closure ex_stub_A2 (Some 2) (Some 5) False init_state"

definition ex_second_closure :: closure where
  "ex_second_closure = render ex_first_call ''abc'' (Some 5) []"

definition ex_qq_data :: play_data where
  "ex_qq_data = \<lparr> p_code = 200, p_msg = None, p_mp3 = None, p_img = None,
        p_lyric = Some [''la la''],
        p_data = Some \<lparr> d_id = Some ''7'', d_url = Some ''http://y/b0.m4a'',
          d_cover = Some ''http://y/b0.jpg'' \<rparr> \<rparr>"

definition ex_resolved_B0 :: song where
  "ex_resolved_B0 =
     updatedSong ex_second_closure ex_stub_B0 (Some 0) (Some 5) ex_qq_data (Some ''http://y/b0.m4a'')"

text \<open>A context after a reload: the history holds the entry of an earlier resolution,
  nothing is playing and the search box is empty.\<close>

definition ex_history_entry :: song where
  "ex_history_entry = simplifiedSong ex_closure ex_resolved_A2"

definition ex_reloaded :: ctx_state where
  "ex_reloaded = init_state \<lparr> playHistory := [ex_history_entry] \<rparr>"

definition ex_reloaded_closure :: closure where
  "ex_reloaded_closure = render ex_reloaded [] (Some 5) []"

definition ex_wy_other :: play_result where
  "ex_wy_other = \<lparr> pr_success = True,
      pr_data = Some \<lparr> p_code = 200, p_msg = None, p_mp3 = Some ''http://x/2.mp3'',
        p_img = None, p_lyric = None, p_data = None \<rparr> \<rparr>"

text \<open>The context once a retry call has started a second resolution, of \<open>ex_stub_B0\<close>, and
  the fetch of the first, aborted by that call, has rejected; and the render of that
  context.\<close>

definition ex_superseded :: ctx_state where
  "ex_superseded = run ex_host_parser init_state
     [Call ex_closure ex_stub_A2 (Some 2) (Some 5) False,
      Call ex_second_closure ex_stub_B0 (Some 0) (Some 5) True,
      FetchSettled 0 (Rejected ex_abort_error)]"

definition ex_third_closure :: closure where
  "ex_third_closure = render ex_superseded ''abc'' (Some 5) []"

text \<open>The stub that \<^verbatim>\<open>onSearch\<close> makes of provider A's second item, and the song that a
  resolution of it commits on the response \<open>ex_wy_other\<close>.\<close>

definition ex_stub_A1 :: song where
  "ex_stub_A1 = tag_wy ex_raw_A1 1"

definition ex_wy_other_data :: play_data where
  "ex_wy_other_data = \<lparr> p_code = 200, p_msg = None, p_mp3 = Some ''http://x/2.mp3'',
        p_img = None, p_lyric = None, p_data = None \<rparr>"

definition ex_resolved_A1 :: song where
  "ex_resolved_A1 =
     updatedSong ex_third_closure ex_stub_A1 (Some 1) (Some 5) ex_wy_other_data
       (Some ''http://x/2.mp3'')"

section \<open>Properties of the play history\<close>

lemma isSameSong_identity: "isSameSong a b = (identity a = identity b)"
  by (simp add: isSameSong_def identity_def)

lemma identity_simplifiedSong: "identity (simplifiedSong cl sg) = identity sg"
  by (simp add: identity_def simplifiedSong_def)

lemma add_all_snoc: "add_all cl (sgs @ [sg]) prev = addToHistory cl sg (add_all cl sgs prev)"
  by (simp add: add_all_def)

lemma filter_take_none:
  "\<forall>x \<in> set xs. P x \<Longrightarrow> filter P (take n xs) = take n xs"
  by (metis filter_True in_set_takeD)

lemma add_all_distinct:
  "distinct (map identity sgs) \<Longrightarrow>
     add_all cl sgs [] = take 50 (map (simplifiedSong cl) (rev sgs))"
proof (induction sgs rule: rev_induct)
  case Nil
  then show ?case by (simp add: add_all_def)
next
  case (snoc sg sgs)
  then have d: "distinct (map identity sgs)" and n: "identity sg \<notin> identity ` set sgs"
    by auto
  have no: "\<forall>s \<in> set (map (simplifiedSong cl) (rev sgs)). \<not> isSameSong s sg"
  proof
    fix s assume "s \<in> set (map (simplifiedSong cl) (rev sgs))"
    then obtain t where t: "t \<in> set sgs" and s: "s = simplifiedSong cl t" by auto
    from t n have "identity t \<noteq> identity sg" by (metis imageI)
    then show "\<not> isSameSong s sg"
      by (simp add: s isSameSong_identity identity_simplifiedSong)
  qed
  have keep: "filter (\<lambda>s. \<not> isSameSong s sg) (take 50 (map (simplifiedSong cl) (rev sgs)))
      = take 50 (map (simplifiedSong cl) (rev sgs))"
    using no by (rule filter_take_none)
  have "add_all cl (sgs @ [sg]) [] =
      take 50 (simplifiedSong cl sg # take 50 (map (simplifiedSong cl) (rev sgs)))"
    using snoc.IH [OF d] keep by (simp add: add_all_snoc addToHistory_def)
  also have "\<dots> = take 50 (map (simplifiedSong cl) (rev (sgs @ [sg])))"
    by (simp add: take_Cons')
  finally show ?case .
qed

text \<open>
  C6. \<^verbatim>\<open>addToHistory\<close> puts the projection of the new song at the front, keeps of the
  previous entries exactly those with another (name, singer, platform) identity, in their
  previous order, and cuts the list after 50 entries, so that what is dropped is the
  oldest. Adding ss of pairwise distinct identities to an empty history leaves the
  last 50 of them, most recent first.
\<close>

theorem addToHistory_dedup_front_cap:
  "hd (addToHistory cl sg prev) = simplifiedSong cl sg
   \<and> isSameSong (simplifiedSong cl sg) sg
   \<and> tl (addToHistory cl sg prev) = take 49 (filter (\<lambda>s. \<not> isSameSong s sg) prev)
   \<and> (\<forall>s \<in> set (tl (addToHistory cl sg prev)). \<not> isSameSong s sg)
   \<and> length (addToHistory cl sg prev) \<le> 50
   \<and> length (addToHistory cl sg prev)
       = min 50 (Suc (length (filter (\<lambda>s. \<not> isSameSong s sg) prev)))
   \<and> (distinct (map identity sgs) \<longrightarrow>
        add_all cl sgs [] = take 50 (map (simplifiedSong cl) (rev sgs)))"
proof -
  have t: "tl (addToHistory cl sg prev) = take 49 (filter (\<lambda>s. \<not> isSameSong s sg) prev)"
    by (simp add: addToHistory_def take_Cons')
  have r: "\<forall>s \<in> set (tl (addToHistory cl sg prev)). \<not> isSameSong s sg"
    unfolding t by (auto dest: in_set_takeD)
  have h: "hd (addToHistory cl sg prev) = simplifiedSong cl sg"
    by (simp add: addToHistory_def take_Cons')
  have i: "isSameSong (simplifiedSong cl sg) sg"
    by (simp add: isSameSong_identity identity_simplifiedSong)
  have l: "length (addToHistory cl sg prev)
       = min 50 (Suc (length (filter (\<lambda>s. \<not> isSameSong s sg) prev)))"
    by (simp add: addToHistory_def)
  have a: "distinct (map identity sgs) \<longrightarrow>
        add_all cl sgs [] = take 50 (map (simplifiedSong cl) (rev sgs))"
    using add_all_distinct by blast
  have l50: "length (addToHistory cl sg prev) \<le> 50"
    unfolding l by (rule min.cobounded1)
  show ?thesis
    using h i t r l50 l a by (intro conjI)
qed

theorem addToHistory_dedup_front_cap_witness:
  "addToHistory ex_closure ex_A1 [ex_B0, simplifiedSong ex_closure ex_A1]
     = [simplifiedSong ex_closure ex_A1, ex_B0]
   \<and> add_all ex_closure [ex_A1, ex_B0] []
     = [simplifiedSong ex_closure ex_B0, simplifiedSong ex_closure ex_A1]"
proof -
  have d: "distinct (map identity [ex_A1, ex_B0])"
    by (simp add: identity_def ex_A1_def ex_B0_def emptySong_def)
  have s: "isSameSong (simplifiedSong ex_closure ex_A1) ex_A1" "\<not> isSameSong ex_B0 ex_A1"
    by (simp_all add: isSameSong_def simplifiedSong_def ex_A1_def ex_B0_def emptySong_def)
  note t = addToHistory_dedup_front_cap
    [of ex_closure ex_A1 "[ex_B0, simplifiedSong ex_closure ex_A1]" "[ex_A1, ex_B0]"]
  from t s have "tl (addToHistory ex_closure ex_A1 [ex_B0, simplifiedSong ex_closure ex_A1]) = [ex_B0]"
    and "hd (addToHistory ex_closure ex_A1 [ex_B0, simplifiedSong ex_closure ex_A1]) = simplifiedSong ex_closure ex_A1"
    and "length (addToHistory ex_closure ex_A1 [ex_B0, simplifiedSong ex_closure ex_A1]) = 2"
    by simp_all
  then have 1: "addToHistory ex_closure ex_A1 [ex_B0, simplifiedSong ex_closure ex_A1]
     = [simplifiedSong ex_closure ex_A1, ex_B0]"
    by (metis length_0_conv list.collapse zero_neq_numeral)
  from t d have 2: "add_all ex_closure [ex_A1, ex_B0] []
     = [simplifiedSong ex_closure ex_B0, simplifiedSong ex_closure ex_A1]"
    by simp
  from 1 2 show ?thesis by simp
qed

section \<open>Properties of the merge\<close>

lemma indexOf_from_Some:
  "indexOf_from xs s k = Some j \<Longrightarrow> k \<le> j \<and> j - k < length xs \<and> fst (xs ! (j - k)) = fst s"
proof (induction xs arbitrary: k)
  case Nil
  then show ?case by simp
next
  case (Cons x xs)
  show ?case
  proof (cases "fst x = fst s")
    case True
    with Cons.prems show ?thesis by simp
  next
    case False
    with Cons.prems have "indexOf_from xs s (Suc k) = Some j" by simp
    from Cons.IH [OF this] have "Suc k \<le> j" "j - Suc k < length xs"
      "fst (xs ! (j - Suc k)) = fst s" by auto
    then show ?thesis by (auto simp: nth_Cons')
  qed
qed

lemma indexOf_from_nth:
  "distinct (map fst xs) \<Longrightarrow> i < length xs \<Longrightarrow> indexOf_from xs (xs ! i) k = Some (k + i)"
proof (induction xs arbitrary: i k)
  case Nil
  then show ?case by simp
next
  case (Cons x xs)
  show ?case
  proof (cases i)
    case 0
    then show ?thesis by simp
  next
    case (Suc j)
    with Cons.prems have j: "j < length xs" and d: "distinct (map fst xs)"
      and nx: "fst x \<notin> fst ` set xs" by auto
    from j have "xs ! j \<in> set xs" by simp
    with nx have "fst x \<noteq> fst (xs ! j)" by (metis imageI)
    with Cons.IH [OF d j, of "Suc k"] Suc show ?thesis by simp
  qed
qed

lemma indexOf_Some:
  "indexOf xs s = Some j \<Longrightarrow> j < length xs \<and> fst (xs ! j) = fst s"
  using indexOf_from_Some [of xs s 0 j] by (simp add: indexOf_def)

lemma indexOf_nth:
  "distinct (map fst xs) \<Longrightarrow> i < length xs \<Longrightarrow> indexOf xs (xs ! i) = Some i"
  using indexOf_from_nth [of xs i 0] by (simp add: indexOf_def)

lemma find_unique:
  "x \<in> set xs \<Longrightarrow> P x \<Longrightarrow> (\<And>y. y \<in> set xs \<Longrightarrow> P y \<Longrightarrow> y = x) \<Longrightarrow> find P xs = Some x"
proof (induction xs)
  case Nil
  then show ?case by simp
next
  case (Cons a xs)
  show ?case
  proof (cases "P a")
    case True
    then have "a = x" using Cons.prems(3) [of a] by simp
    with True show ?thesis by simp
  next
    case False
    with Cons.prems(1,2) have m: "x \<in> set xs" by auto
    have "find P xs = Some x"
    proof (rule Cons.IH [OF m Cons.prems(2)])
      fix y assume "y \<in> set xs" and "P y"
      then show "y = x" using Cons.prems(3) [of y] by simp
    qed
    with False show ?thesis by simp
  qed
qed

lemma distinct_fst_eq:
  "distinct (map fst xs) \<Longrightarrow> a \<in> set xs \<Longrightarrow> b \<in> set xs \<Longrightarrow> fst a = fst b \<Longrightarrow> a = b"
proof -
  assume d: "distinct (map fst xs)" and a: "a \<in> set xs" and b: "b \<in> set xs"
    and e: "fst a = fst b"
  from d have "inj_on fst (set xs)" by (simp add: distinct_map)
  from this e a b show "a = b" by (rule inj_onD)
qed

lemma find_ranked_eq:
  assumes d: "distinct (map fst ss)"
  shows "find_ranked p ss i =
     (if i < length (filter (on_platform p) ss)
      then Some (filter (on_platform p) ss ! i) else None)"
proof -
  let ?F = "filter (on_platform p) ss"
  let ?Q = "\<lambda>s. on_platform p s \<and> indexOf ?F s = Some i"
  have dF: "distinct (map fst ?F)"
    using d by (simp add: distinct_map_filter)
  show ?thesis
  proof (cases "i < length ?F")
    case True
    then have m: "?F ! i \<in> set ?F" by (rule nth_mem)
    then have m1: "?F ! i \<in> set ss" and m2: "on_platform p (?F ! i)" by auto
    have q: "?Q (?F ! i)" using m2 indexOf_nth [OF dF True] by simp
    have u: "y = ?F ! i" if y: "y \<in> set ss" and qy: "?Q y" for y
    proof -
      from qy have "fst (?F ! i) = fst y" using indexOf_Some by blast
      with d m1 y show ?thesis by (metis distinct_fst_eq)
    qed
    have "find ?Q ss = Some (?F ! i)"
      using m1 q u by (rule find_unique)
    with True show ?thesis by (simp add: find_ranked_def)
  next
    case False
    have "\<not> ?Q s" for s using False indexOf_Some [of ?F s i] by auto
    then have "find ?Q ss = None" by (simp add: find_None_iff)
    with False show ?thesis by (simp add: find_ranked_def)
  qed
qed

lemma interleave_Nil2 [simp]: "interleave xs [] = xs"
  by (cases xs) simp_all

lemma interleave_drop:
  "interleave (drop i W) (drop i Q) =
     (if i < length W then [W ! i] else []) @ (if i < length Q then [Q ! i] else []) @
     interleave (drop (Suc i) W) (drop (Suc i) Q)"
proof -
  have dw: "drop i W = W ! i # drop (Suc i) W" if "i < length W"
    using that by (rule Cons_nth_drop_Suc [symmetric])
  have dq: "drop i Q = Q ! i # drop (Suc i) Q" if "i < length Q"
    using that by (rule Cons_nth_drop_Suc [symmetric])
  have ew: "drop i W = []" "drop (Suc i) W = []" if "\<not> i < length W"
    using that by simp_all
  have eq: "drop i Q = []" "drop (Suc i) Q = []" if "\<not> i < length Q"
    using that by simp_all
  show ?thesis
  proof (cases "i < length W")
    case w: True
    show ?thesis
    proof (cases "i < length Q")
      case True
      show ?thesis unfolding dw [OF w] dq [OF True] using w True by simp
    next
      case False
      show ?thesis unfolding dw [OF w] eq [OF False] using w False by simp
    qed
  next
    case w: False
    show ?thesis
    proof (cases "i < length Q")
      case True
      show ?thesis unfolding ew [OF w] dq [OF True] using w True by simp
    next
      case False
      show ?thesis unfolding ew [OF w] eq [OF False] using w False by simp
    qed
  qed
qed

lemma interleave_loop_eq:
  assumes d: "distinct (map fst ss)"
    and W: "W = filter (on_platform ''wy'') ss"
    and Q: "Q = filter (on_platform ''qq'') ss"
    and m: "m = max (length W) (length Q)"
  shows "i \<le> m \<Longrightarrow> interleave_loop ss m i acc = acc @ interleave (drop i W) (drop i Q)"
proof (induction "m - i" arbitrary: i acc)
  case 0
  then have "i = m" by simp
  then show ?case using m by (simp add: interleave_loop.simps)
next
  case (Suc n)
  then have lt: "i < m" and n: "n = m - Suc i" and le: "Suc i \<le> m" by auto
  have fw: "find_ranked ''wy'' ss i = (if i < length W then Some (W ! i) else None)"
    using find_ranked_eq [OF d] W by simp
  have fq: "find_ranked ''qq'' ss i = (if i < length Q then Some (Q ! i) else None)"
    using find_ranked_eq [OF d] Q by simp
  have "interleave_loop ss m i acc =
      interleave_loop ss m (Suc i)
        (acc @ (if i < length W then [W ! i] else []) @ (if i < length Q then [Q ! i] else []))"
    using lt by (subst interleave_loop.simps) (simp add: fw fq Let_def)
  also have "\<dots> = (acc @ (if i < length W then [W ! i] else []) @ (if i < length Q then [Q ! i] else []))
      @ interleave (drop (Suc i) W) (drop (Suc i) Q)"
    using Suc.hyps(1) [OF n le] .
  also have "\<dots> = acc @ interleave (drop i W) (drop i Q)"
    by (subst (2) interleave_drop) simp
  finally show ?case .
qed

lemma interleaveResults_eq:
  assumes "distinct (map fst ss)"
  shows "interleaveResults ss =
     interleave (filter (on_platform ''wy'') ss) (filter (on_platform ''qq'') ss)"
  using interleave_loop_eq [OF assms refl refl refl, of 0 "[]"]
  by (simp add: interleaveResults_def Let_def)

lemma length_interleave: "length (interleave xs ys) = length xs + length ys"
  by (induction xs ys rule: interleave.induct) simp_all

lemma filter_interleave_left:
  "\<forall>x \<in> set xs. P x \<Longrightarrow> \<forall>y \<in> set ys. \<not> P y \<Longrightarrow> filter P (interleave xs ys) = xs"
  by (induction xs ys rule: interleave.induct) simp_all

lemma filter_interleave_right:
  "\<forall>x \<in> set xs. \<not> P x \<Longrightarrow> \<forall>y \<in> set ys. P y \<Longrightarrow> filter P (interleave xs ys) = ys"
  by (induction xs ys rule: interleave.induct) simp_all

lemma map_fst_map_alloc: "map fst (map_alloc base f items) = map ((+) base) [0 ..< length items]"
  by (rule nth_equalityI) (simp_all add: map_alloc_def nth_enumerate_eq)

lemma distinct_map_alloc: "distinct (map fst (map_alloc base f items))"
  unfolding map_fst_map_alloc by (simp add: distinct_map)

lemma length_map_alloc: "length (map_alloc base f items) = length items"
  by (simp add: map_alloc_def)

lemma nth_map_alloc:
  "i < length items \<Longrightarrow> map_alloc base f items ! i = (base + i, f (items ! i) i)"
  by (simp add: map_alloc_def nth_enumerate_eq)

lemma in_map_alloc:
  "s \<in> set (map_alloc base f items) \<Longrightarrow> \<exists>i < length items. s = (base + i, f (items ! i) i)"
  by (auto simp: map_alloc_def in_set_enumerate_eq)

lemma on_platform_wy: "s \<in> set (map_alloc base tag_wy items) \<Longrightarrow> on_platform p s = (p = ''wy'')"
proof -
  assume "s \<in> set (map_alloc base tag_wy items)"
  then obtain sg index where "snd s = tag_wy sg index" using in_map_alloc by fastforce
  then show ?thesis by (auto simp: on_platform_def tag_wy_def)
qed

lemma on_platform_qq: "s \<in> set (map_alloc base tag_qq items) \<Longrightarrow> on_platform p s = (p = ''qq'')"
proof -
  assume "s \<in> set (map_alloc base tag_qq items)"
  then obtain sg index where "snd s = tag_qq sg index" using in_map_alloc by fastforce
  then show ?thesis by (auto simp: on_platform_def tag_qq_def)
qed

lemma filter_all: "\<forall>x \<in> set xs. P x \<Longrightarrow> filter P xs = xs"
  by (induction xs) simp_all

lemma filter_none: "\<forall>x \<in> set xs. \<not> P x \<Longrightarrow> filter P xs = []"
  by (induction xs) simp_all

lemma distinct_combined:
  "distinct (map fst (map_alloc base f A @ map_alloc (base + length A) g B))"
proof -
  have "fst a \<noteq> fst b"
    if a: "a \<in> set (map_alloc base f A)" and b: "b \<in> set (map_alloc (base + length A) g B)"
    for a b
  proof -
    from in_map_alloc [OF a] obtain i where "i < length A" "fst a = base + i" by auto
    moreover from in_map_alloc [OF b] obtain j where "fst b = base + length A + j" by auto
    ultimately show ?thesis by simp
  qed
  then have "fst ` set (map_alloc base f A) \<inter> fst ` set (map_alloc (base + length A) g B) = {}"
    by blast
  then show ?thesis
    by (simp add: distinct_map_alloc)
qed

lemma interleaveResults_tagged:
  "interleaveResults (map_alloc base tag_wy A @ map_alloc (base + length A) tag_qq B)
     = interleave (map_alloc base tag_wy A) (map_alloc (base + length A) tag_qq B)"
proof -
  let ?W = "map_alloc base tag_wy A" and ?Q = "map_alloc (base + length A) tag_qq B"
  have w: "filter (on_platform ''wy'') (?W @ ?Q) = ?W"
    by (simp add: filter_all filter_none on_platform_wy on_platform_qq)
  have q: "filter (on_platform ''qq'') (?W @ ?Q) = ?Q"
    by (simp add: filter_all filter_none on_platform_wy on_platform_qq)
  show ?thesis
    using interleaveResults_eq [OF distinct_combined, of base tag_wy A tag_qq B]
    unfolding w q .
qed

text \<open>
  C8. For provider lists \<open>A\<close> and \<open>B\<close>, tagged as \<^verbatim>\<open>onSearch\<close> tags them and concatenated,
  \<^verbatim>\<open>interleaveResults\<close> returns the round-robin merge: one item of \<open>A\<close>, one of \<open>B\<close>,
  by rank, then the rest of the longer list. The result has \<open>length A + length B\<close>
  entries, and its entries of either platform are that provider's entries in their
  original order.
\<close>

theorem interleaveResults_round_robin:
  "interleaveResults (map_alloc base tag_wy A @ map_alloc (base + length A) tag_qq B)
     = interleave (map_alloc base tag_wy A) (map_alloc (base + length A) tag_qq B)
   \<and> length (interleaveResults (map_alloc base tag_wy A @ map_alloc (base + length A) tag_qq B))
     = length A + length B
   \<and> filter (on_platform ''wy'')
        (interleaveResults (map_alloc base tag_wy A @ map_alloc (base + length A) tag_qq B))
     = map_alloc base tag_wy A
   \<and> filter (on_platform ''qq'')
        (interleaveResults (map_alloc base tag_wy A @ map_alloc (base + length A) tag_qq B))
     = map_alloc (base + length A) tag_qq B"
proof -
  let ?W = "map_alloc base tag_wy A" and ?Q = "map_alloc (base + length A) tag_qq B"
  have l: "length (interleave ?W ?Q) = length A + length B"
    by (simp add: length_interleave length_map_alloc)
  have w: "filter (on_platform ''wy'') (interleave ?W ?Q) = ?W"
    by (rule filter_interleave_left) (simp_all add: on_platform_wy on_platform_qq)
  have q: "filter (on_platform ''qq'') (interleave ?W ?Q) = ?Q"
    by (rule filter_interleave_right) (simp_all add: on_platform_wy on_platform_qq)
  show ?thesis
    unfolding interleaveResults_tagged using l w q by (intro conjI refl)
qed

theorem interleaveResults_round_robin_witness:
  "map snd (interleaveResults
      (map_alloc 0 tag_wy [ex_A0, ex_raw_A1, ex_A2] @ map_alloc 3 tag_qq [ex_raw_B0]))
     = [tag_wy ex_A0 0, tag_qq ex_raw_B0 0, tag_wy ex_raw_A1 1, tag_wy ex_A2 2]"
proof -
  have "interleaveResults
      (map_alloc 0 tag_wy [ex_A0, ex_raw_A1, ex_A2]
        @ map_alloc (0 + length [ex_A0, ex_raw_A1, ex_A2]) tag_qq [ex_raw_B0])
     = interleave (map_alloc 0 tag_wy [ex_A0, ex_raw_A1, ex_A2])
        (map_alloc (0 + length [ex_A0, ex_raw_A1, ex_A2]) tag_qq [ex_raw_B0])"
    using interleaveResults_round_robin [of 0 "[ex_A0, ex_raw_A1, ex_A2]" "[ex_raw_B0]"]
    by (rule conjunct1)
  moreover have "0 + length [ex_A0, ex_raw_A1, ex_A2] = 3"
    by simp
  ultimately have "interleaveResults
      (map_alloc 0 tag_wy [ex_A0, ex_raw_A1, ex_A2] @ map_alloc 3 tag_qq [ex_raw_B0])
     = interleave (map_alloc 0 tag_wy [ex_A0, ex_raw_A1, ex_A2]) (map_alloc 3 tag_qq [ex_raw_B0])"
    by (simp add: numeral_3_eq_3)
  then show ?thesis
    by (simp add: map_alloc_def enumerate_eq_zip upt_rec numeral_2_eq_2 numeral_3_eq_3)
qed

lemma interleaveResults_qq_only:
  "interleaveResults (map_alloc base tag_qq B) = map_alloc base tag_qq B"
  using interleaveResults_tagged [of base "[]" B] by (simp add: map_alloc_def)

lemma interleaveResults_wy_only:
  "interleaveResults (map_alloc base tag_wy A) = map_alloc base tag_wy A"
  using interleaveResults_tagged [of base A "[]"] by (simp add: map_alloc_def)

lemma interleaveResults_Nil: "interleaveResults [] = []"
  by (simp add: interleaveResults_def interleave_loop.simps)

lemma wy_songs_unusable: "unusable r \<Longrightarrow> wy_songs base r = Inr []"
  by (auto simp: unusable_def wy_songs_def split: if_splits option.splits)

lemma qq_songs_unusable: "unusable r \<Longrightarrow> qq_songs base r = Inr []"
  by (auto simp: unusable_def qq_songs_def split: if_splits option.splits)

lemma wy_songs_usable: "wy_songs base (usable_with A) = Inr (map_alloc base tag_wy A)"
  by (simp add: usable_with_def wy_songs_def)

lemma qq_songs_usable: "qq_songs base (usable_with B) = Inr (map_alloc base tag_qq B)"
  by (simp add: usable_with_def qq_songs_def)

lemma search_try_qq_only:
  "unusable w \<Longrightarrow>
     search_try qq_first (Resolved w) (Resolved (usable_with B)) = Inr (map_alloc 0 tag_qq B)"
  by (simp add: search_try_def Promise_all_def wy_songs_unusable qq_songs_usable
      interleaveResults_qq_only)

lemma search_try_wy_only:
  "unusable q \<Longrightarrow>
     search_try qq_first (Resolved (usable_with A)) (Resolved q) = Inr (map_alloc 0 tag_wy A)"
  by (simp add: search_try_def Promise_all_def qq_songs_unusable wy_songs_usable
      interleaveResults_wy_only)

lemma search_try_rejected:
  "search_try qq_first (Rejected e) (Resolved q) = Inl e"
  "search_try qq_first (Resolved w) (Rejected e) = Inl e"
  "search_try qq_first (Rejected e) (Rejected e') = Inl (if qq_first then e' else e)"
  by (simp_all add: search_try_def Promise_all_def)

lemma search_try_rejected_left: "\<exists>e'. search_try qq_first (Rejected e) other = Inl e'"
  by (cases other) (simp_all add: search_try_rejected)

lemma search_try_rejected_right: "\<exists>e'. search_try qq_first other (Rejected e) = Inl e'"
  by (cases other) (simp_all add: search_try_rejected)

lemma onSearch_ok:
  "\<not> trims_to_empty (c_searchTerm cl) \<Longrightarrow> search_try qq_first w q = Inr merged \<Longrightarrow>
     songs (onSearch cl qq_first w q s) = map snd merged \<and>
     effects (onSearch cl qq_first w q s) = effects s @ search_requests cl"
  by (simp add: onSearch_def emit_def search_requests_def)

lemma onSearch_failed:
  "\<not> trims_to_empty (c_searchTerm cl) \<Longrightarrow> search_try qq_first w q = Inl e \<Longrightarrow>
     songs (onSearch cl qq_first w q s) = songs s \<and>
     effects (onSearch cl qq_first w q s)
       = effects s @ search_requests cl @ [ErrorMsg search_failed_msg, ConsoleError [] e]"
  by (simp add: onSearch_def emit_def search_requests_def)

text \<open>
  C5, as the code has it. When both requests resolve, a provider whose response is not
  usable (\<^verbatim>\<open>success\<close> false, or a code other than 200) contributes no entry, no error is
  raised, and the list is the other provider's results. When one of the two requests
  rejects, \<^verbatim>\<open>Promise.all\<close> rejects: the list of songs stays as it was, whatever the other
  provider returned, and the "search failed" error is shown; the error logged is that of
  the request that rejected, the earlier of the two when both reject.
\<close>

theorem onSearch_degradation:
  assumes "\<not> trims_to_empty (c_searchTerm cl)"
  shows "(unusable w \<longrightarrow>
            songs (onSearch cl qq_first (Resolved w) (Resolved (usable_with B)) s)
              = map snd (map_alloc 0 tag_qq B)
            \<and> effects (onSearch cl qq_first (Resolved w) (Resolved (usable_with B)) s)
              = effects s @ search_requests cl)
       \<and> (unusable q \<longrightarrow>
            songs (onSearch cl qq_first (Resolved (usable_with A)) (Resolved q) s)
              = map snd (map_alloc 0 tag_wy A)
            \<and> effects (onSearch cl qq_first (Resolved (usable_with A)) (Resolved q) s)
              = effects s @ search_requests cl)
       \<and> songs (onSearch cl qq_first (Rejected e) other s) = songs s
       \<and> songs (onSearch cl qq_first other (Rejected e) s) = songs s
       \<and> effects (onSearch cl qq_first (Rejected e) (Resolved r) s)
            = effects s @ search_requests cl @ [ErrorMsg search_failed_msg, ConsoleError [] e]
       \<and> effects (onSearch cl qq_first (Resolved r) (Rejected e) s)
            = effects s @ search_requests cl @ [ErrorMsg search_failed_msg, ConsoleError [] e]
       \<and> effects (onSearch cl qq_first (Rejected e) (Rejected e') s)
            = effects s @ search_requests cl
              @ [ErrorMsg search_failed_msg, ConsoleError [] (if qq_first then e' else e)]"
proof -
  note ok = onSearch_ok [OF assms] and failed = onSearch_failed [OF assms]
  have 1: "unusable w \<longrightarrow>
            songs (onSearch cl qq_first (Resolved w) (Resolved (usable_with B)) s)
              = map snd (map_alloc 0 tag_qq B)
            \<and> effects (onSearch cl qq_first (Resolved w) (Resolved (usable_with B)) s)
              = effects s @ search_requests cl"
    using ok [OF search_try_qq_only] by blast
  have 2: "unusable q \<longrightarrow>
            songs (onSearch cl qq_first (Resolved (usable_with A)) (Resolved q) s)
              = map snd (map_alloc 0 tag_wy A)
            \<and> effects (onSearch cl qq_first (Resolved (usable_with A)) (Resolved q) s)
              = effects s @ search_requests cl"
    using ok [OF search_try_wy_only] by blast
  have 3: "songs (onSearch cl qq_first (Rejected e) other s) = songs s"
    using search_try_rejected_left [of qq_first e other] failed by blast
  have 4: "songs (onSearch cl qq_first other (Rejected e) s) = songs s"
    using search_try_rejected_right [of qq_first other e] failed by blast
  note 5 = failed [OF search_try_rejected(1), of qq_first e r s, THEN conjunct2]
  note 6 = failed [OF search_try_rejected(2), of qq_first r e s, THEN conjunct2]
  note 7 = failed [OF search_try_rejected(3), of qq_first e e' s, THEN conjunct2]
  from 1 2 3 4 5 6 7 show ?thesis by (intro conjI)
qed

theorem onSearch_degradation_witness:
  "songs (onSearch ex_closure False
      (Resolved \<lparr> sr_success = False, sr_data = None \<rparr>) (Resolved (usable_with [ex_raw_B0]))
      init_state) = [tag_qq ex_raw_B0 0]
   \<and> songs (onSearch ex_closure False (Rejected ex_search_error)
      (Resolved (usable_with [ex_raw_B0])) init_state) = []"
proof -
  have t: "\<not> trims_to_empty (c_searchTerm ex_closure)"
    by (simp add: ex_closure_def trims_to_empty.simps ws_length_def)
  have u: "unusable \<lparr> sr_success = False, sr_data = None \<rparr>"
    by (simp add: unusable_def)
  from onSearch_degradation [OF t, where w = "\<lparr> sr_success = False, sr_data = None \<rparr>"
      and B = "[ex_raw_B0]" and s = init_state and e = ex_search_error and qq_first = False
      and other = "Resolved (usable_with [ex_raw_B0])"] u
  show ?thesis
    by (simp add: map_alloc_def init_state_def)
qed

text \<open>
  The claim as stated fails: with provider A's request rejected and provider B's
  answered with one item, the search shows the error and builds no list from B's item.
\<close>

theorem onSearch_degradation_counterexample:
  "songs (onSearch ex_closure False (Rejected ex_search_error)
      (Resolved (usable_with [ex_raw_B0])) init_state) = []
   \<and> songs (onSearch ex_closure False (Rejected ex_search_error)
      (Resolved (usable_with [ex_raw_B0])) init_state) \<noteq> [tag_qq ex_raw_B0 0]
   \<and> effects (onSearch ex_closure False (Rejected ex_search_error)
      (Resolved (usable_with [ex_raw_B0])) init_state)
     = [SearchReq ''/api/sby?platform=wy&term=abc'', SearchReq ''/api/sby?platform=qq&term=abc'',
        ErrorMsg search_failed_msg, ConsoleError [] ex_search_error]"
proof -
  have t: "\<not> trims_to_empty (c_searchTerm ex_closure)"
    by (simp add: ex_closure_def trims_to_empty.simps ws_length_def)
  have e: "encodeURIComponent ''abc'' = ''abc''"
    by (simp add: encodeURIComponent_def uri_unreserved_def)
  show ?thesis
    using t
    by (simp add: onSearch_def search_try_def Promise_all_def emit_def init_state_def
        ex_closure_def e)
qed

lemma scheme_char_not_colon: "scheme_char c \<Longrightarrow> c \<noteq> CHR '':''"
  by (auto simp: scheme_char_def ascii_alpha_def ascii_digit_def)

lemma ascii_alpha_scheme_char: "ascii_alpha c \<Longrightarrow> scheme_char c"
  by (simp add: scheme_char_def)

lemma scheme_state_Some:
  "scheme_state buffer cs = Some (sch, r) \<Longrightarrow>
     \<exists>pre. cs = pre @ CHR '':'' # r \<and> list_all scheme_char pre"
proof (induction cs arbitrary: buffer)
  case Nil
  then show ?case by simp
next
  case (Cons c cs)
  show ?case
  proof (cases "scheme_char c")
    case True
    with Cons.prems have "scheme_state (buffer @ [ascii_lower c]) cs = Some (sch, r)" by simp
    from Cons.IH [OF this] obtain pre where "cs = pre @ CHR '':'' # r" "list_all scheme_char pre"
      by blast
    with True have "c # cs = (c # pre) @ CHR '':'' # r \<and> list_all scheme_char (c # pre)"
      by simp
    then show ?thesis by blast
  next
    case False
    with Cons.prems have "c = CHR '':''" "cs = r" by (auto split: if_splits)
    then have "c # cs = [] @ CHR '':'' # r \<and> list_all scheme_char []" by simp
    then show ?thesis by blast
  qed
qed

lemma takeWhile_scheme:
  "list_all scheme_char pre \<Longrightarrow> takeWhile (\<lambda>c. c \<noteq> CHR '':'') (pre @ CHR '':'' # r) = pre"
  by (induction pre) (simp_all add: scheme_char_not_colon)

lemma split_scheme_has_scheme:
  assumes "split_scheme s = Some (sch, r)"
  shows "has_scheme s"
proof -
  from assms obtain c cs where s: "s = c # cs" and a: "ascii_alpha c"
    and st: "scheme_state [ascii_lower c] cs = Some (sch, r)"
    by (auto simp: split_scheme_def split: list.splits if_splits)
  from scheme_state_Some [OF st] obtain pre where cs: "cs = pre @ CHR '':'' # r"
    and p: "list_all scheme_char pre" by blast
  have all: "list_all scheme_char (c # pre)"
    using a p by (simp add: ascii_alpha_scheme_char)
  have "takeWhile (\<lambda>c. c \<noteq> CHR '':'') s = c # pre"
    using takeWhile_scheme [OF all, of r] by (simp add: s cs)
  then show ?thesis
    using a all by (simp add: has_scheme_def s cs)
qed

lemma no_scheme_invalid: "\<not> has_scheme (preprocess u) \<Longrightarrow> \<not> URL_parses hp u"
proof -
  assume n: "\<not> has_scheme (preprocess u)"
  have "split_scheme (preprocess u) = None"
  proof (cases "split_scheme (preprocess u)")
    case None
    then show ?thesis .
  next
    case (Some p)
    then have "has_scheme (preprocess u)"
      using split_scheme_has_scheme [of "preprocess u" "fst p" "snd p"] by simp
    with n show ?thesis by simp
  qed
  then show ?thesis by (simp add: URL_parses_def)
qed

lemma split_scheme_required:
  "sch \<in> set host_required_schemes \<Longrightarrow> split_scheme (sch @ CHR '':'' # r) = Some (sch, r)"
  by (auto simp: host_required_schemes_def split_scheme_def ascii_alpha_def scheme_char_def
      ascii_lower_def ascii_digit_def)

lemma required_special:
  "sch \<in> set host_required_schemes \<Longrightarrow> sch \<noteq> ''file'' \<and> sch \<in> set special_schemes"
  by (auto simp: host_required_schemes_def special_schemes_def)

lemma dropWhile_slashes:
  "list_all slash_or_backslash sl \<Longrightarrow> t = [] \<or> \<not> slash_or_backslash (hd t) \<Longrightarrow>
     dropWhile slash_or_backslash (sl @ t) = t"
proof (induction sl)
  case Nil
  then show ?case by (cases t) auto
next
  case (Cons a sl)
  then show ?case by simp
qed

lemma authority_empty:
  "t = [] \<or> authority_end True (hd t) \<Longrightarrow> \<not> authority_ok hp True t"
  by (cases t) (auto simp: authority_ok_def hostport_ok_def)

lemma missing_host_invalid:
  assumes p: "preprocess u = sch @ CHR '':'' # sl @ t"
    and sch: "sch \<in> set host_required_schemes"
    and sl: "list_all slash_or_backslash sl"
    and t: "t = [] \<or> hd t = CHR ''?'' \<or> hd t = CHR ''#''"
  shows "\<not> URL_parses hp u"
proof -
  from t have t1: "t = [] \<or> \<not> slash_or_backslash (hd t)"
    by (auto simp: slash_or_backslash_def)
  from t have t2: "t = [] \<or> authority_end True (hd t)"
    by (auto simp: authority_end_def)
  have "URL_parses hp u = authority_ok hp True t"
    using required_special [OF sch]
    by (simp add: URL_parses_def p split_scheme_required [OF sch] dropWhile_slashes [OF sl t1])
  with authority_empty [OF t2] show ?thesis by simp
qed

lemma isValidUrl_iff: "isValidUrl hp u = URL_parses hp u"
  by (simp add: isValidUrl_def new_URL_def)

lemma preprocess_Nil: "preprocess [] = []"
  by (simp add: preprocess_def)

text \<open>
  C9. \<^verbatim>\<open>isValidUrl\<close> returns a truth value for every string: it is \<open>False\<close> exactly when
  \<^verbatim>\<open>new URL\<close> throws, so no exception leaves it. It is \<open>False\<close> on the empty string, on
  every input that (once the parser has trimmed it) does not start with a scheme and a
  colon, and on every input with a scheme that requires a host (\<^verbatim>\<open>http\<close>, \<^verbatim>\<open>https\<close>,
  \<^verbatim>\<open>ws\<close>, \<^verbatim>\<open>wss\<close>, \<^verbatim>\<open>ftp\<close>) in which the authority is missing: nothing but slashes between
  the scheme and the end, the query or the fragment. This holds whatever the host parser
  accepts.
\<close>

theorem isValidUrl_total_and_strict:
  "isValidUrl hp u = (case new_URL hp u of Inl e \<Rightarrow> False | Inr ok \<Rightarrow> True)
   \<and> ((\<exists>e. new_URL hp u = Inl e) \<longrightarrow> \<not> isValidUrl hp u)
   \<and> \<not> isValidUrl hp []
   \<and> (\<not> has_scheme (preprocess u) \<longrightarrow> \<not> isValidUrl hp u)
   \<and> (preprocess u = sch @ CHR '':'' # sl @ t \<and> sch \<in> set host_required_schemes \<and>
        list_all slash_or_backslash sl \<and> (t = [] \<or> hd t = CHR ''?'' \<or> hd t = CHR ''#'')
        \<longrightarrow> \<not> isValidUrl hp u)"
proof -
  have 1: "isValidUrl hp u = (case new_URL hp u of Inl e \<Rightarrow> False | Inr ok \<Rightarrow> True)"
    by (simp add: isValidUrl_def split: sum.splits)
  have 2: "(\<exists>e. new_URL hp u = Inl e) \<longrightarrow> \<not> isValidUrl hp u"
    by (auto simp: isValidUrl_def)
  have "\<not> has_scheme (preprocess [])"
    by (simp add: preprocess_Nil has_scheme_def)
  then have 3: "\<not> isValidUrl hp []"
    unfolding isValidUrl_iff by (rule no_scheme_invalid)
  have 4: "\<not> has_scheme (preprocess u) \<longrightarrow> \<not> isValidUrl hp u"
    unfolding isValidUrl_iff using no_scheme_invalid by blast
  have 5: "preprocess u = sch @ CHR '':'' # sl @ t \<and> sch \<in> set host_required_schemes \<and>
        list_all slash_or_backslash sl \<and> (t = [] \<or> hd t = CHR ''?'' \<or> hd t = CHR ''#'')
        \<longrightarrow> \<not> isValidUrl hp u"
    unfolding isValidUrl_iff using missing_host_invalid by blast
  from 1 2 3 4 5 show ?thesis by (intro conjI)
qed

theorem isValidUrl_total_and_strict_witness:
  "\<not> isValidUrl ex_host_parser ''/api/sby?platform=wy''
   \<and> \<not> isValidUrl ex_host_parser ''http://?x=1''
   \<and> new_URL ex_host_parser ''http://?x=1'' = Inl (JsError ''TypeError'' ''Invalid URL'')
   \<and> isValidUrl ex_host_parser ''http://x/1.mp3''"
proof -
  have a: "\<not> has_scheme (preprocess ''/api/sby?platform=wy'')"
    by (simp add: has_scheme_def preprocess_def c0_or_space_def tab_or_newline_def
        ascii_alpha_def)
  have b: "preprocess ''http://?x=1'' = ''http'' @ CHR '':'' # ''//'' @ ''?x=1''"
    by (simp add: preprocess_def c0_or_space_def tab_or_newline_def)
  have c: "''http'' \<in> set host_required_schemes" "list_all slash_or_backslash ''//''"
    "hd ''?x=1'' = CHR ''?''"
    by (simp_all add: host_required_schemes_def slash_or_backslash_def)
  have 1: "\<not> isValidUrl ex_host_parser ''/api/sby?platform=wy''"
    using isValidUrl_total_and_strict [of ex_host_parser "''/api/sby?platform=wy''"] a by blast
  have 2: "\<not> isValidUrl ex_host_parser ''http://?x=1''"
    using isValidUrl_total_and_strict
      [of ex_host_parser "''http://?x=1''" "''http''" "''//''" "''?x=1''"] b c by blast
  have 3: "new_URL ex_host_parser ''http://?x=1'' = Inl (JsError ''TypeError'' ''Invalid URL'')"
    using 2 by (simp add: isValidUrl_def new_URL_def split: if_splits)
  have 4: "isValidUrl ex_host_parser ''http://x/1.mp3''"
    by code_simp
  from 1 2 3 4 show ?thesis by (intro conjI)
qed

lemma url_updatedSong [simp]: "url (updatedSong cl sg index qual d newUrl) = newUrl"
  by (simp add: updatedSong_def)

lemma lyrics_updatedSong_qq:
  "platform sg = Some ''qq'' \<Longrightarrow> lyrics (updatedSong cl sg index qual d newUrl) = Some []"
  by (simp add: updatedSong_def)

lemma platform_updatedSong [simp]:
  "platform (updatedSong cl sg index qual d newUrl) = platform sg"
  by (simp add: updatedSong_def)

lemma try_block_commit_cases:
  assumes "try_block hp cl sg index qual outcome = Inr (Some u)"
  shows "\<exists>r d. outcome = Resolved r \<and> pr_success r \<and> pr_data r = Some d \<and> p_code d = 200 \<and>
    u = updatedSong cl sg index qual d (newUrl_of sg d) \<and>
    url_of (c_currentSong cl) \<noteq> newUrl_of sg d \<and>
    \<not> bad_url hp (newUrl_of sg d)"
proof (cases outcome)
  case (Rejected e)
  with assms show ?thesis by (simp add: try_block_def)
next
  case (Resolved r)
  show ?thesis
  proof (cases "pr_data r")
    case None
    with assms Resolved show ?thesis by (simp add: try_block_def)
  next
    case (Some d)
    from assms Resolved Some have ok: "pr_success r" "p_code d = 200"
      by (auto simp: try_block_def split: if_splits)
    from assms Resolved Some ok
    have "u = updatedSong cl sg index qual d (newUrl_of sg d)"
      "url_of (c_currentSong cl) \<noteq> newUrl_of sg d"
      "\<not> bad_url hp (newUrl_of sg d)"
      by (auto simp: try_block_def newUrl_of_def bad_url_def truthy_str_def show_str_def Let_def
          split: if_splits option.splits)
    with Resolved Some ok show ?thesis by simp
  qed
qed

lemma commits_of_append [simp]: "commits_of rid (es @ fs) = commits_of rid es @ commits_of rid fs"
  by (simp add: commits_of_def)

lemma commits_of_simps [simp]:
  "commits_of rid [] = []"
  "commits_of rid (AbortReq c # es) = commits_of rid es"
  "commits_of rid (FetchReq c v # es) = commits_of rid es"
  "commits_of rid (SearchReq v # es) = commits_of rid es"
  "commits_of rid (InfoMsg v # es) = commits_of rid es"
  "commits_of rid (ErrorMsg v # es) = commits_of rid es"
  "commits_of rid (DelayReq c n # es) = commits_of rid es"
  "commits_of rid (ConsoleError v e # es) = commits_of rid es"
  "commits_of rid (ToggleQueue u # es) = commits_of rid es"
  "commits_of rid (SetCurrentSong c u # es)
     = (if c = rid then SetCurrentSong c u # commits_of rid es else commits_of rid es)"
  "commits_of rid (AddToHistory c u # es)
     = (if c = rid then AddToHistory c u # commits_of rid es else commits_of rid es)"
  by (simp_all add: commits_of_def is_commit_def)

lemma committed_part_upd [simp]:
  "committed_part (s \<lparr> effects := es \<rparr>) = committed_part s"
  "committed_part (s \<lparr> isPlaying := b \<rparr>) = committed_part s"
  "committed_part (s \<lparr> isLoading := b \<rparr>) = committed_part s"
  "committed_part (s \<lparr> isSearching := b \<rparr>) = committed_part s"
  "committed_part (s \<lparr> abortControllerRef := c \<rparr>) = committed_part s"
  "committed_part (s \<lparr> aborted := a \<rparr>) = committed_part s"
  "committed_part (s \<lparr> controllers := n \<rparr>) = committed_part s"
  "committed_part (s \<lparr> tasks := ts \<rparr>) = committed_part s"
  by (simp_all add: committed_part_def)

lemma finish_frame:
  "committed_part (finish rid t s) = committed_part s"
  "effects (finish rid t s) = effects s"
  "aborted (finish rid t s) = aborted s"
  "controllers (finish rid t s) = controllers s"
  "isPlaying (finish rid t s) = isPlaying s"
  "isLoading (finish rid t s) = False"
  "tasks (finish rid t s) = (tasks s)(rid \<mapsto> t \<lparr> t_phase := Finished \<rparr>)"
  by (simp_all add: finish_def set_task_def Let_def)

lemma start_attempt_frame:
  "committed_part (start_attempt rid t s) = committed_part s"
  "effects (start_attempt rid t s)
     = effects s @ [FetchReq rid (play_requestUrl (t_closure t) (t_song t) (t_index t) (t_quality t))]"
  "aborted (start_attempt rid t s) = aborted s"
  "controllers (start_attempt rid t s) = controllers s"
  "isPlaying (start_attempt rid t s) = isPlaying s"
  "isLoading (start_attempt rid t s) = isLoading s"
  "abortControllerRef (start_attempt rid t s) = abortControllerRef s"
  "tasks (start_attempt rid t s) = (tasks s)(rid \<mapsto> t \<lparr> t_phase := AwaitFetch \<rparr>)"
  by (simp_all add: start_attempt_def set_task_def emit_def)

lemma give_up_frame:
  "committed_part (give_up rid t s) = committed_part s"
  "commits_of r (effects (give_up rid t s)) = commits_of r (effects s)"
  "aborted (give_up rid t s) = aborted s"
  "controllers (give_up rid t s) = controllers s"
  "tasks (give_up rid t s) = (tasks s)(rid \<mapsto> t \<lparr> t_phase := Finished \<rparr>)"
  by (simp_all add: give_up_def finish_frame emit_def Let_def)

lemma loop_head_frame:
  "committed_part (loop_head rid t s) = committed_part s"
  "commits_of r (effects (loop_head rid t s)) = commits_of r (effects s)"
  "aborted (loop_head rid t s) = aborted s"
  "controllers (loop_head rid t s) = controllers s"
  by (simp_all add: loop_head_def give_up_frame start_attempt_frame)

lemma after_failure_frame:
  "committed_part (after_failure rid t s) = committed_part s"
  "commits_of r (effects (after_failure rid t s)) = commits_of r (effects s)"
  "aborted (after_failure rid t s) = aborted s"
  "controllers (after_failure rid t s) = controllers s"
  by (simp_all add: after_failure_def loop_head_frame finish_frame emit_def set_task_def Let_def)

lemma catch_tryPlay_frame:
  "committed_part (catch_tryPlay rid t e s) = committed_part s"
  "commits_of r (effects (catch_tryPlay rid t e s)) = commits_of r (effects s)"
  "aborted (catch_tryPlay rid t e s) = aborted s"
  "controllers (catch_tryPlay rid t e s) = controllers s"
  by (simp_all add: catch_tryPlay_def after_failure_frame emit_def)

lemma commit_frame:
  "currentSong (commit rid cl sap u s) = Some u"
  "isPlaying (commit rid cl sap u s) = sap"
  "playHistory (commit rid cl sap u s) = addToHistory cl u (replace_song u (playHistory s))"
  "songs (commit rid cl sap u s) = replace_song u (songs s)"
  "aborted (commit rid cl sap u s) = aborted s"
  "controllers (commit rid cl sap u s) = controllers s"
  "tasks (commit rid cl sap u s) = tasks s"
  "abortControllerRef (commit rid cl sap u s) = abortControllerRef s"
  "effects (commit rid cl sap u s)
     = effects s
       @ (if list_ex (\<lambda>sg. isSameSong sg u) (c_playQueue cl) then [ToggleQueue u, ToggleQueue u]
          else [])
       @ [SetCurrentSong rid u, AddToHistory rid u]"
  by (simp_all add: commit_def updateSongData_def emit_def Let_def)

lemma try_block_bad_url:
  assumes "pr_success r" "pr_data r = Some d" "p_code d = 200"
    and "platform sg = Some ''qq'' \<longrightarrow> p_data d \<noteq> None"
    and "bad_url hp (newUrl_of sg d)"
    and "url_of (c_currentSong cl) \<noteq> newUrl_of sg d"
  shows "try_block hp cl sg index qual (Resolved r) = Inl (JsError ''Error'' invalid_url_msg)"
  using assms
  by (auto simp: try_block_def newUrl_of_def bad_url_def truthy_str_def show_str_def Let_def
      split: option.splits)

lemma try_block_same_url:
  assumes "pr_success r" "pr_data r = Some d" "p_code d = 200"
    and "platform sg = Some ''qq'' \<longrightarrow> p_data d \<noteq> None"
    and "url_of (c_currentSong cl) = newUrl_of sg d"
  shows "try_block hp cl sg index qual (Resolved r) = Inr None"
  using assms
  by (auto simp: try_block_def newUrl_of_def Let_def split: option.splits)

lemma invalid_url_error_plain:
  "\<not> is_cors (JsError ''Error'' invalid_url_msg)"
  "err_name (JsError ''Error'' invalid_url_msg) \<noteq> ''AbortError''"
  by (simp_all add: is_cors_def invalid_url_msg_def) code_simp

lemma resume_fetch_commit:
  assumes "tasks s rid = Some t" "t_phase t = AwaitFetch"
    and "try_block hp (t_closure t) (t_song t) (t_index t) (t_quality t) outcome = Inr (Some u)"
  shows "resume_fetch hp rid outcome s = finish rid t (commit rid (t_closure t) (shouldAutoPlay t) u s)"
  using assms by (simp add: resume_fetch_def)

lemma resume_fetch_thrown:
  assumes "tasks s rid = Some t" "t_phase t = AwaitFetch"
    and "try_block hp (t_closure t) (t_song t) (t_index t) (t_quality t) outcome = Inl e"
  shows "resume_fetch hp rid outcome s = catch_tryPlay rid t e s"
  using assms by (simp add: resume_fetch_def)

lemma resume_fetch_same_url:
  assumes "tasks s rid = Some t" "t_phase t = AwaitFetch"
    and "try_block hp (t_closure t) (t_song t) (t_index t) (t_quality t) outcome = Inr None"
  shows "resume_fetch hp rid outcome s = finish rid t s"
  using assms by (simp add: resume_fetch_def)

lemma committed_part_commit:
  "committed_part (commit rid cl sap u s)
     = (Some u, addToHistory cl u (replace_song u (playHistory s)), replace_song u (songs s))"
  by (simp add: committed_part_def commit_frame)

lemma hd_addToHistory: "hd (addToHistory cl sg prev) = simplifiedSong cl sg"
  by (simp add: addToHistory_def take_Cons')

lemma lyrics_simplifiedSong:
  "lyrics sg = Some l \<Longrightarrow> lyrics (simplifiedSong cl sg) = Some l"
  by (simp add: simplifiedSong_def)

text \<open>
  C10. When a resolution commits a song \<open>u\<close>, \<open>u\<close> becomes the current song and its
  projection the first history entry. If the song is of provider B ("qq"), the lyrics of
  \<open>u\<close> and of the history entry are the empty list, whatever the response carried; so a
  committed song with other lyrics is not of provider B, and is of provider A ("wy") when
  the platform is one of the two.
\<close>

theorem qq_commit_has_empty_lyrics:
  assumes "tasks s rid = Some t" and "t_phase t = AwaitFetch"
    and "try_block hp (t_closure t) (t_song t) (t_index t) (t_quality t) outcome = Inr (Some u)"
  shows "currentSong (resume_fetch hp rid outcome s) = Some u
       \<and> hd (playHistory (resume_fetch hp rid outcome s)) = simplifiedSong (t_closure t) u
       \<and> platform u = platform (t_song t)
       \<and> (platform (t_song t) = Some ''qq'' \<longrightarrow>
            lyrics u = Some [] \<and> lyrics (simplifiedSong (t_closure t) u) = Some [])
       \<and> (lyrics u \<noteq> Some [] \<longrightarrow> platform (t_song t) \<noteq> Some ''qq'')
       \<and> (lyrics u \<noteq> Some [] \<and> platform (t_song t) \<in> {Some ''wy'', Some ''qq''} \<longrightarrow>
            platform (t_song t) = Some ''wy'')"
proof -
  from try_block_commit_cases [OF assms(3)] obtain d where
    u: "u = updatedSong (t_closure t) (t_song t) (t_index t) (t_quality t) d (newUrl_of (t_song t) d)"
    by blast
  have cp: "committed_part (resume_fetch hp rid outcome s)
      = (Some u, addToHistory (t_closure t) u (replace_song u (playHistory s)),
         replace_song u (songs s))"
    by (simp add: resume_fetch_commit [OF assms] finish_frame committed_part_commit)
  then have 1: "currentSong (resume_fetch hp rid outcome s) = Some u"
    and h: "playHistory (resume_fetch hp rid outcome s)
      = addToHistory (t_closure t) u (replace_song u (playHistory s))"
    by (simp_all add: committed_part_def)
  have 2: "hd (playHistory (resume_fetch hp rid outcome s)) = simplifiedSong (t_closure t) u"
    unfolding h by (rule hd_addToHistory)
  have 3: "platform u = platform (t_song t)"
    by (simp add: u)
  have q: "lyrics u = Some []" if "platform (t_song t) = Some ''qq''"
    unfolding u using that by (rule lyrics_updatedSong_qq)
  have 4: "platform (t_song t) = Some ''qq'' \<longrightarrow>
      lyrics u = Some [] \<and> lyrics (simplifiedSong (t_closure t) u) = Some []"
    using q lyrics_simplifiedSong by blast
  have 5: "lyrics u \<noteq> Some [] \<longrightarrow> platform (t_song t) \<noteq> Some ''qq''"
    using q by blast
  have 6: "lyrics u \<noteq> Some [] \<and> platform (t_song t) \<in> {Some ''wy'', Some ''qq''} \<longrightarrow>
      platform (t_song t) = Some ''wy''"
    using q by blast
  from 1 2 3 4 5 6 show ?thesis by (intro conjI)
qed

lemma first_attempt_simps [simp]:
  "t_closure (first_attempt cl sg index qual isRetry) = cl"
  "t_song (first_attempt cl sg index qual isRetry) = sg"
  "t_index (first_attempt cl sg index qual isRetry) = index"
  "t_quality (first_attempt cl sg index qual isRetry) = qual"
  "t_isRetry (first_attempt cl sg index qual isRetry) = isRetry"
  "t_retryCount (first_attempt cl sg index qual isRetry) = 0"
  "t_lastError (first_attempt cl sg index qual isRetry) = None"
  "t_phase (first_attempt cl sg index qual isRetry) = AwaitFetch"
  "first_attempt cl sg index qual isRetry \<lparr> t_phase := AwaitFetch \<rparr>
     = first_attempt cl sg index qual isRetry"
  by (simp_all add: first_attempt_def)

lemma onPlaySong_started:
  assumes "\<not> (c_isLoading cl \<and> \<not> isRetry)"
    and "abortControllerRef s \<noteq> None \<longrightarrow> \<not> (url_of (c_currentSong cl) = url sg \<and> \<not> isRetry)"
  shows "onPlaySong cl sg index qual isRetry s
     = start_attempt (controllers s) (first_attempt cl sg index qual isRetry)
         ((case abortControllerRef s of None \<Rightarrow> s \<lparr> controllers := Suc (controllers s) \<rparr>
           | Some previous \<Rightarrow> abort previous (s \<lparr> controllers := Suc (controllers s) \<rparr>))
            \<lparr> abortControllerRef := Some (controllers s), isLoading := True \<rparr>)"
  using assms
  by (auto simp: onPlaySong_def loop_head_def MAX_RETRIES_def first_attempt_def Let_def
      split: option.splits)

lemma ex_urls_valid:
  "isValidUrl ex_host_parser ''http://x/1.mp3''"
  "isValidUrl ex_host_parser ''http://y/b0.m4a''"
  by code_simp+

lemma ex_try_block_B0:
  "try_block ex_host_parser ex_closure ex_stub_B0 (Some 0) (Some 5) (Resolved ex_qq_ok)
     = Inr (Some (updatedSong ex_closure ex_stub_B0 (Some 0) (Some 5)
         \<lparr> p_code = 200, p_msg = None, p_mp3 = None, p_img = None, p_lyric = Some [''la la''],
           p_data = Some \<lparr> d_id = Some ''7'', d_url = Some ''http://y/b0.m4a'',
             d_cover = Some ''http://y/b0.jpg'' \<rparr> \<rparr>
         (Some ''http://y/b0.m4a'')))"
  by (simp add: try_block_def ex_qq_ok_def ex_stub_B0_def tag_qq_def ex_closure_def url_of_def
      truthy_str_def show_str_def ex_urls_valid Let_def)

theorem qq_commit_has_empty_lyrics_witness:
  "map_option lyrics
     (currentSong (resume_fetch ex_host_parser 0 (Resolved ex_qq_ok)
        (onPlaySong ex_closure ex_stub_B0 (Some 0) (Some 5) False init_state)))
     = Some (Some [])
   \<and> lyrics (hd (playHistory (resume_fetch ex_host_parser 0 (Resolved ex_qq_ok)
        (onPlaySong ex_closure ex_stub_B0 (Some 0) (Some 5) False init_state))))
     = Some []"
proof -
  let ?s = "onPlaySong ex_closure ex_stub_B0 (Some 0) (Some 5) False init_state"
  let ?t = "first_attempt ex_closure ex_stub_B0 (Some 0) (Some 5) False"
  have g: "\<not> (c_isLoading ex_closure \<and> \<not> False)" "abortControllerRef init_state = None"
    by (simp_all add: ex_closure_def init_state_def)
  have t: "tasks ?s 0 = Some ?t"
    using g by (simp add: onPlaySong_started start_attempt_frame) (simp add: init_state_def)
  have p: "t_phase ?t = AwaitFetch"
    by simp
  have q: "platform (t_song ?t) = Some ''qq''"
    by (simp add: ex_stub_B0_def tag_qq_def)
  have b: "try_block ex_host_parser (t_closure ?t) (t_song ?t) (t_index ?t) (t_quality ?t)
      (Resolved ex_qq_ok) = Inr (Some (updatedSong ex_closure ex_stub_B0 (Some 0) (Some 5)
         \<lparr> p_code = 200, p_msg = None, p_mp3 = None, p_img = None, p_lyric = Some [''la la''],
           p_data = Some \<lparr> d_id = Some ''7'', d_url = Some ''http://y/b0.m4a'',
             d_cover = Some ''http://y/b0.jpg'' \<rparr> \<rparr>
         (Some ''http://y/b0.m4a'')))"
    using ex_try_block_B0 by simp
  from qq_commit_has_empty_lyrics [OF t p b] q show ?thesis
    by simp
qed

lemma after_failure_counts:
  "rid \<notin> set (aborted s) \<Longrightarrow>
     \<exists>t'. tasks (after_failure rid t s) rid = Some t' \<and>
          t_retryCount t' = Suc (t_retryCount t) \<and> t_lastError t' = t_lastError t"
  by (simp add: after_failure_def loop_head_def give_up_frame start_attempt_frame emit_def
      set_task_def Let_def)

lemma catch_tryPlay_plain:
  "\<not> is_cors e \<Longrightarrow> err_name e \<noteq> ''AbortError'' \<Longrightarrow>
     catch_tryPlay rid t e s = after_failure rid (t \<lparr> t_lastError := Some e \<rparr>) s"
  by (simp add: catch_tryPlay_def)

lemma try_block_Rejected: "try_block hp cl sg index qual (Rejected e) = Inl e"
  by (simp add: try_block_def)

lemma try_block_bad_url_no_commit:
  assumes "pr_success r" "pr_data r = Some d" "p_code d = 200"
    and "bad_url hp (newUrl_of sg d)"
  shows "try_block hp cl sg index qual (Resolved r) \<noteq> Inr (Some u)"
proof
  assume "try_block hp cl sg index qual (Resolved r) = Inr (Some u)"
  from try_block_commit_cases [OF this] assms show False by auto
qed

lemma resume_fetch_no_commit:
  assumes "\<And>u. try_block hp (t_closure t) (t_song t) (t_index t) (t_quality t) outcome \<noteq> Inr (Some u)"
    and "tasks s rid = Some t"
  shows "committed_part (resume_fetch hp rid outcome s) = committed_part s
       \<and> commits_of r (effects (resume_fetch hp rid outcome s)) = commits_of r (effects s)"
proof (cases "try_block hp (t_closure t) (t_song t) (t_index t) (t_quality t) outcome")
  case (Inl e)
  with assms(2) show ?thesis
    by (simp add: resume_fetch_def catch_tryPlay_frame)
next
  case (Inr v)
  with assms(1) have "v = None" by (cases v) auto
  with Inr assms(2) show ?thesis
    by (simp add: resume_fetch_def finish_frame)
qed

text \<open>
  C4, as the code has it. An attempt whose response is usable but whose stream URL is
  missing, empty or malformed sets no current song and writes no history. When that URL
  differs from the URL of the current song that the call's render holds, the attempt
  throws the "invalid audio URL" error and goes on exactly as an attempt whose fetch was
  rejected with that error: the error becomes the last error and the retry counter
  goes up. When the render holds a current song with that same URL, the attempt ends the
  resolution at the same-URL check, before the URL is validated.
\<close>

theorem invalid_url_attempt:
  assumes "tasks s rid = Some t" and "t_phase t = AwaitFetch"
    and "pr_success r" and "pr_data r = Some d" and "p_code d = 200"
    and "platform (t_song t) = Some ''qq'' \<longrightarrow> p_data d \<noteq> None"
    and "bad_url hp (newUrl_of (t_song t) d)"
  shows "committed_part (resume_fetch hp rid (Resolved r) s) = committed_part s
       \<and> commits_of rid (effects (resume_fetch hp rid (Resolved r) s)) = commits_of rid (effects s)
       \<and> (url_of (c_currentSong (t_closure t)) \<noteq> newUrl_of (t_song t) d \<longrightarrow>
            resume_fetch hp rid (Resolved r) s
              = resume_fetch hp rid (Rejected (JsError ''Error'' invalid_url_msg)) s
            \<and> resume_fetch hp rid (Resolved r) s
              = after_failure rid (t \<lparr> t_lastError := Some (JsError ''Error'' invalid_url_msg) \<rparr>) s
            \<and> (rid \<notin> set (aborted s) \<longrightarrow>
                 (\<exists>t'. tasks (resume_fetch hp rid (Resolved r) s) rid = Some t' \<and>
                    t_retryCount t' = Suc (t_retryCount t) \<and>
                    t_lastError t' = Some (JsError ''Error'' invalid_url_msg))))
       \<and> ((\<exists>cur. c_currentSong (t_closure t) = Some cur \<and> url cur = newUrl_of (t_song t) d) \<longrightarrow>
            resume_fetch hp rid (Resolved r) s = finish rid t s)"
proof -
  let ?e = "JsError ''Error'' invalid_url_msg"
  note nc = try_block_bad_url_no_commit [OF assms(3,4,5,7)]
  from resume_fetch_no_commit [OF nc assms(1)]
  have 1: "committed_part (resume_fetch hp rid (Resolved r) s) = committed_part s"
    and 2: "commits_of rid (effects (resume_fetch hp rid (Resolved r) s)) = commits_of rid (effects s)"
    by blast+
  have 3: "resume_fetch hp rid (Resolved r) s = resume_fetch hp rid (Rejected ?e) s
      \<and> resume_fetch hp rid (Resolved r) s = after_failure rid (t \<lparr> t_lastError := Some ?e \<rparr>) s
      \<and> (rid \<notin> set (aborted s) \<longrightarrow>
           (\<exists>t'. tasks (resume_fetch hp rid (Resolved r) s) rid = Some t' \<and>
              t_retryCount t' = Suc (t_retryCount t) \<and> t_lastError t' = Some ?e))"
    if d: "url_of (c_currentSong (t_closure t)) \<noteq> newUrl_of (t_song t) d"
  proof -
    have a: "resume_fetch hp rid (Resolved r) s = catch_tryPlay rid t ?e s"
      using try_block_bad_url [OF assms(3,4,5,6,7) d]
      by (simp add: resume_fetch_thrown [OF assms(1,2)])
    have b: "resume_fetch hp rid (Rejected ?e) s = catch_tryPlay rid t ?e s"
      by (simp add: resume_fetch_thrown [OF assms(1,2)] try_block_Rejected)
    have c: "catch_tryPlay rid t ?e s = after_failure rid (t \<lparr> t_lastError := Some ?e \<rparr>) s"
      using invalid_url_error_plain by (rule catch_tryPlay_plain)
    have "\<exists>t'. tasks (after_failure rid (t \<lparr> t_lastError := Some ?e \<rparr>) s) rid = Some t' \<and>
          t_retryCount t' = Suc (t_retryCount t) \<and> t_lastError t' = Some ?e"
      if "rid \<notin> set (aborted s)"
      using after_failure_counts [OF that, of "t \<lparr> t_lastError := Some ?e \<rparr>"] by simp
    with a b c show ?thesis by simp
  qed
  have 4: "resume_fetch hp rid (Resolved r) s = finish rid t s"
    if "\<exists>cur. c_currentSong (t_closure t) = Some cur \<and> url cur = newUrl_of (t_song t) d"
  proof -
    from that have "url_of (c_currentSong (t_closure t)) = newUrl_of (t_song t) d"
      by (auto simp: url_of_def)
    from try_block_same_url [OF assms(3,4,5,6) this]
    show ?thesis by (simp add: resume_fetch_same_url [OF assms(1,2)])
  qed
  from 1 2 3 4 show ?thesis by blast
qed

lemma ex_bad_url: "\<not> isValidUrl ex_host_parser ''not a url''"
  by code_simp

lemma ex_request_A2:
  "play_requestUrl ex_closure ex_stub_A2 (Some 2) (Some 5)
     = ''/api/sby?platform=wy&term=abc&index=2&quality=5''"
  by code_simp

lemma first_call_task:
  assumes "\<not> c_isLoading cl"
  shows "tasks (onPlaySong cl sg index qual False init_state) 0
           = Some (first_attempt cl sg index qual False)"
    and "aborted (onPlaySong cl sg index qual False init_state) = []"
    and "effects (onPlaySong cl sg index qual False init_state)
           = [FetchReq 0 (play_requestUrl cl sg index qual)]"
    and "committed_part (onPlaySong cl sg index qual False init_state) = committed_part init_state"
proof -
  have "onPlaySong cl sg index qual False init_state
     = start_attempt (controllers init_state) (first_attempt cl sg index qual False)
         (init_state \<lparr> controllers := Suc (controllers init_state),
            abortControllerRef := Some (controllers init_state), isLoading := True \<rparr>)"
    using assms by (subst onPlaySong_started) (simp_all add: init_state_def)
  note st = this
  show "tasks (onPlaySong cl sg index qual False init_state) 0
           = Some (first_attempt cl sg index qual False)"
    and "aborted (onPlaySong cl sg index qual False init_state) = []"
    and "effects (onPlaySong cl sg index qual False init_state)
           = [FetchReq 0 (play_requestUrl cl sg index qual)]"
    and "committed_part (onPlaySong cl sg index qual False init_state) = committed_part init_state"
    unfolding st by (simp_all add: start_attempt_frame) (simp_all add: init_state_def committed_part_def)
qed

theorem invalid_url_attempt_witness:
  "currentSong (resume_fetch ex_host_parser 0 (Resolved ex_wy_bad_url)
      (onPlaySong ex_closure ex_stub_A2 (Some 2) (Some 5) False init_state)) = None
   \<and> playHistory (resume_fetch ex_host_parser 0 (Resolved ex_wy_bad_url)
      (onPlaySong ex_closure ex_stub_A2 (Some 2) (Some 5) False init_state)) = []
   \<and> map_option t_retryCount (tasks (resume_fetch ex_host_parser 0 (Resolved ex_wy_bad_url)
      (onPlaySong ex_closure ex_stub_A2 (Some 2) (Some 5) False init_state)) 0) = Some 1
   \<and> map_option t_lastError (tasks (resume_fetch ex_host_parser 0 (Resolved ex_wy_bad_url)
      (onPlaySong ex_closure ex_stub_A2 (Some 2) (Some 5) False init_state)) 0)
       = Some (Some (JsError ''Error'' invalid_url_msg))"
proof -
  let ?s = "onPlaySong ex_closure ex_stub_A2 (Some 2) (Some 5) False init_state"
  let ?t = "first_attempt ex_closure ex_stub_A2 (Some 2) (Some 5) False"
  let ?d = "\<lparr> p_code = 200, p_msg = None, p_mp3 = Some ''not a url'',
        p_img = None, p_lyric = None, p_data = None \<rparr>"
  have l: "\<not> c_isLoading ex_closure" by (simp add: ex_closure_def)
  note c = first_call_task [OF l, of ex_stub_A2 "Some 2" "Some 5"]
  have r: "pr_success ex_wy_bad_url" "pr_data ex_wy_bad_url = Some ?d" "p_code ?d = 200"
    by (simp_all add: ex_wy_bad_url_def)
  have w: "platform (t_song ?t) = Some ''wy''"
    by (simp add: ex_stub_A2_def tag_wy_def)
  then have q: "platform (t_song ?t) = Some ''qq'' \<longrightarrow> p_data ?d \<noteq> None"
    by simp
  have n: "newUrl_of (t_song ?t) ?d = Some ''not a url''"
    using w by (simp add: newUrl_of_def)
  have b: "bad_url ex_host_parser (newUrl_of (t_song ?t) ?d)"
    unfolding n by (simp add: bad_url_def ex_bad_url)
  have u: "url_of (c_currentSong (t_closure ?t)) \<noteq> newUrl_of (t_song ?t) ?d"
    unfolding n by (simp add: url_of_def ex_closure_def)
  have a: "0 \<notin> set (aborted ?s)"
    using c(2) by simp
  have p: "t_phase ?t = AwaitFetch" by simp
  note th = invalid_url_attempt [OF c(1) p r q b]
  from th have cp: "committed_part (resume_fetch ex_host_parser 0 (Resolved ex_wy_bad_url) ?s)
      = committed_part ?s" by blast
  from th u a obtain t' where
    t': "tasks (resume_fetch ex_host_parser 0 (Resolved ex_wy_bad_url) ?s) 0 = Some t'"
      "t_retryCount t' = Suc (t_retryCount ?t)"
      "t_lastError t' = Some (JsError ''Error'' invalid_url_msg)"
    by blast
  from cp c(4) have "currentSong (resume_fetch ex_host_parser 0 (Resolved ex_wy_bad_url) ?s) = None"
    "playHistory (resume_fetch ex_host_parser 0 (Resolved ex_wy_bad_url) ?s) = []"
    by (simp_all add: committed_part_def init_state_def)
  with t' show ?thesis by simp
qed

text \<open>
  The claim as stated fails. The current song carries the URL "not a url"; a song of
  provider A is resolved and the response yields that same text as its stream URL. The
  attempt returns at the same-URL check: the resolution ends at once with its retry
  counter at 0, no error recorded, and neither a retry notice nor an error shown.
\<close>

theorem invalid_url_attempt_counterexample:
  "\<not> isValidUrl ex_host_parser ''not a url''
   \<and> effects (resume_fetch ex_host_parser 0 (Resolved ex_wy_bad_url)
        (onPlaySong ex_restored_closure ex_stub_A2 (Some 2) (Some 5) False ex_restored))
     = [FetchReq 0 ''/api/sby?platform=wy&term=abc&index=2&quality=5'']
   \<and> map_option t_retryCount (tasks (resume_fetch ex_host_parser 0 (Resolved ex_wy_bad_url)
        (onPlaySong ex_restored_closure ex_stub_A2 (Some 2) (Some 5) False ex_restored)) 0) = Some 0
   \<and> map_option t_lastError (tasks (resume_fetch ex_host_parser 0 (Resolved ex_wy_bad_url)
        (onPlaySong ex_restored_closure ex_stub_A2 (Some 2) (Some 5) False ex_restored)) 0) = Some None
   \<and> map_option t_phase (tasks (resume_fetch ex_host_parser 0 (Resolved ex_wy_bad_url)
        (onPlaySong ex_restored_closure ex_stub_A2 (Some 2) (Some 5) False ex_restored)) 0)
       = Some Finished"
proof -
  let ?cl = ex_restored_closure
  let ?s = "onPlaySong ?cl ex_stub_A2 (Some 2) (Some 5) False ex_restored"
  let ?t = "first_attempt ?cl ex_stub_A2 (Some 2) (Some 5) False"
  let ?d = "\<lparr> p_code = 200, p_msg = None, p_mp3 = Some ''not a url'',
        p_img = None, p_lyric = None, p_data = None \<rparr>"
  have g: "\<not> (c_isLoading ?cl \<and> \<not> False)" "abortControllerRef ex_restored = None"
    "controllers ex_restored = 0" "effects ex_restored = []"
    by (simp_all add: ex_restored_closure_def render_def ex_restored_def init_state_def)
  have s: "?s = start_attempt 0 ?t
      (ex_restored \<lparr> controllers := Suc 0, abortControllerRef := Some 0, isLoading := True \<rparr>)"
    using g by (subst onPlaySong_started) simp_all
  have q: "play_requestUrl ?cl ex_stub_A2 (Some 2) (Some 5)
      = ''/api/sby?platform=wy&term=abc&index=2&quality=5''"
    by code_simp
  have t: "tasks ?s 0 = Some ?t" and e: "effects ?s = [FetchReq 0 ''/api/sby?platform=wy&term=abc&index=2&quality=5'']"
    unfolding s using q by (simp_all add: start_attempt_frame g)
  have r: "pr_success ex_wy_bad_url" "pr_data ex_wy_bad_url = Some ?d" "p_code ?d = 200"
    by (simp_all add: ex_wy_bad_url_def)
  have w: "platform ex_stub_A2 = Some ''wy''"
    by (simp add: ex_stub_A2_def tag_wy_def)
  have n: "url_of (c_currentSong ?cl) = newUrl_of ex_stub_A2 ?d"
    using w by (simp add: newUrl_of_def url_of_def ex_restored_closure_def render_def ex_restored_def)
  have "try_block ex_host_parser ?cl ex_stub_A2 (Some 2) (Some 5) (Resolved ex_wy_bad_url) = Inr None"
    using r _ n by (rule try_block_same_url) (simp add: w)
  then have "resume_fetch ex_host_parser 0 (Resolved ex_wy_bad_url) ?s = finish 0 ?t ?s"
    using t by (simp add: resume_fetch_same_url)
  then show ?thesis
    by (simp add: finish_frame e ex_bad_url)
qed

lemma count_fetches_append [simp]:
  "count_fetches rid (es @ fs) = count_fetches rid es + count_fetches rid fs"
  by (simp add: count_fetches_def)

lemma count_fetches_simps [simp]:
  "count_fetches rid [] = 0"
  "count_fetches rid (AbortReq c # es) = count_fetches rid es"
  "count_fetches rid (FetchReq c v # es) = (if c = rid then Suc (count_fetches rid es) else count_fetches rid es)"
  "count_fetches rid (SearchReq v # es) = count_fetches rid es"
  "count_fetches rid (InfoMsg v # es) = count_fetches rid es"
  "count_fetches rid (ErrorMsg v # es) = count_fetches rid es"
  "count_fetches rid (DelayReq c n # es) = count_fetches rid es"
  "count_fetches rid (ConsoleError v e # es) = count_fetches rid es"
  "count_fetches rid (ToggleQueue u # es) = count_fetches rid es"
  "count_fetches rid (SetCurrentSong c u # es) = count_fetches rid es"
  "count_fetches rid (AddToHistory c u # es) = count_fetches rid es"
  by (simp_all add: count_fetches_def is_fetch_def)

lemma slot_ok_unchanged:
  "slot_ok s rid \<Longrightarrow> tasks s' rid = tasks s rid \<Longrightarrow>
     count_fetches rid (effects s') = count_fetches rid (effects s) \<Longrightarrow>
     controllers s \<le> controllers s' \<Longrightarrow> slot_ok s' rid"
  by (auto simp: slot_ok_def split: option.splits)

lemma slot_ok_le_max:
  "slot_ok s rid \<Longrightarrow> count_fetches rid (effects s) \<le> MAX_RETRIES"
  by (auto simp: slot_ok_def attempts_ok_def split: option.splits phase.splits)

lemma give_up_effects:
  "count_fetches r (effects (give_up rid t s)) = count_fetches r (effects s)"
  by (simp add: give_up_def finish_frame emit_def Let_def)

lemma finish_slot:
  assumes "slot_ok s r" and "tasks s rid = Some t'" and "rid < controllers s"
    and "count_fetches rid (effects s) \<le> MAX_RETRIES"
  shows "slot_ok (finish rid t s) r"
proof (cases "r = rid")
  case True
  with assms show ?thesis
    by (simp add: slot_ok_def finish_frame attempts_ok_def)
next
  case False
  then show ?thesis
    by (intro slot_ok_unchanged [OF assms(1)]) (simp_all add: finish_frame)
qed

lemma give_up_slot:
  assumes "slot_ok s r" and "tasks s rid = Some t'" and "rid < controllers s"
    and "count_fetches rid (effects s) \<le> MAX_RETRIES"
  shows "slot_ok (give_up rid t s) r"
proof (cases "r = rid")
  case True
  with assms show ?thesis
    by (simp add: slot_ok_def give_up_frame give_up_effects attempts_ok_def)
next
  case False
  then show ?thesis
    by (intro slot_ok_unchanged [OF assms(1)]) (simp_all add: give_up_frame give_up_effects)
qed

lemma start_attempt_slot:
  assumes "slot_ok s r" and "rid < controllers s"
    and "count_fetches rid (effects s) = t_retryCount t" and "t_retryCount t < MAX_RETRIES"
  shows "slot_ok (start_attempt rid t s) r"
proof (cases "r = rid")
  case True
  with assms show ?thesis
    by (simp add: slot_ok_def start_attempt_frame attempts_ok_def)
next
  case False
  then show ?thesis
    by (intro slot_ok_unchanged [OF assms(1)]) (simp_all add: start_attempt_frame)
qed

lemma after_failure_slot:
  assumes "slot_ok s r" and "tasks s rid = Some t'" and "rid < controllers s"
    and "count_fetches rid (effects s) = Suc (t_retryCount t)" and "t_retryCount t < MAX_RETRIES"
  shows "slot_ok (after_failure rid t s) r"
proof (cases "rid \<in> set (aborted s)")
  case True
  then have "after_failure rid t s = finish rid t s" by (simp add: after_failure_def)
  with finish_slot [OF assms(1,2,3)] assms(4,5) show ?thesis by simp
next
  case na: False
  show ?thesis
  proof (cases "Suc (t_retryCount t) < MAX_RETRIES")
    case True
    with na have a: "after_failure rid t s
        = emit [InfoMsg (retrying_msg (Suc (t_retryCount t))), DelayReq rid 1000]
            (set_task rid (t \<lparr> t_retryCount := Suc (t_retryCount t), t_phase := AwaitTimer \<rparr>) s)"
      by (simp add: after_failure_def Let_def)
    show ?thesis
    proof (cases "r = rid")
      case r: True
      with assms True show ?thesis
        by (simp add: a slot_ok_def emit_def set_task_def attempts_ok_def)
    next
      case False
      then show ?thesis
        by (intro slot_ok_unchanged [OF assms(1)]) (simp_all add: a emit_def set_task_def)
    qed
  next
    case False
    with na have a: "after_failure rid t s
        = give_up rid (t \<lparr> t_retryCount := Suc (t_retryCount t) \<rparr>) s"
      by (simp add: after_failure_def loop_head_def Let_def)
    from assms(4,5) have "count_fetches rid (effects s) \<le> MAX_RETRIES" by simp
    from give_up_slot [OF assms(1,2,3) this] show ?thesis by (simp add: a)
  qed
qed

lemma catch_tryPlay_slot:
  assumes "slot_ok s r" and "tasks s rid = Some t'" and "rid < controllers s"
    and "count_fetches rid (effects s) = Suc (t_retryCount t)" and "t_retryCount t < MAX_RETRIES"
  shows "slot_ok (catch_tryPlay rid t e s) r"
proof -
  let ?s1 = "emit [ConsoleError ''CORS error detected:'' e, ErrorMsg audio_failed_msg] s
                \<lparr> isPlaying := False \<rparr>"
  have 1: "slot_ok ?s1 r"
    using assms(1) by (rule slot_ok_unchanged) (simp_all add: emit_def)
  have 2: "tasks ?s1 rid = Some t'" "rid < controllers ?s1"
    "count_fetches rid (effects ?s1) = Suc (t_retryCount t)"
    using assms by (simp_all add: emit_def)
  have c: "slot_ok (after_failure rid t ?s1) r"
    using 1 2 assms(5) by (rule after_failure_slot)
  have p: "slot_ok (after_failure rid t s) r"
    using assms by (rule after_failure_slot)
  have l: "slot_ok (after_failure rid (t \<lparr> t_lastError := Some e \<rparr>) s) r"
    using assms by (intro after_failure_slot [where t' = t']) simp_all
  from c p l show ?thesis by (simp add: catch_tryPlay_def)
qed

lemma commit_slot:
  assumes "slot_ok s r"
  shows "slot_ok (commit rid cl sap u s) r"
  using assms by (rule slot_ok_unchanged) (simp_all add: commit_frame)

lemma resume_fetch_slot:
  assumes "budget_inv s"
  shows "slot_ok (resume_fetch hp rid outcome s) r"
proof -
  from assms have all: "\<And>x. slot_ok s x" by (simp add: budget_inv_def)
  show ?thesis
  proof (cases "tasks s rid")
    case None
    with all show ?thesis by (simp add: resume_fetch_def)
  next
    case (Some t)
    show ?thesis
    proof (cases "t_phase t = AwaitFetch")
      case False
      with Some all show ?thesis by (simp add: resume_fetch_def)
    next
      case True
      from all [of rid] Some True have c: "rid < controllers s"
        and n: "count_fetches rid (effects s) = Suc (t_retryCount t)"
        and b: "t_retryCount t < MAX_RETRIES"
        by (simp_all add: slot_ok_def attempts_ok_def)
      from n b have le: "count_fetches rid (effects s) \<le> MAX_RETRIES" by simp
      show ?thesis
      proof (cases "try_block hp (t_closure t) (t_song t) (t_index t) (t_quality t) outcome")
        case (Inl e)
        with Some True have "resume_fetch hp rid outcome s = catch_tryPlay rid t e s"
          by (simp add: resume_fetch_def)
        with catch_tryPlay_slot [OF all Some c n b] show ?thesis by simp
      next
        case (Inr v)
        show ?thesis
        proof (cases v)
          case None
          with Inr Some True have "resume_fetch hp rid outcome s = finish rid t s"
            by (simp add: resume_fetch_def)
          with finish_slot [OF all Some c le] show ?thesis by simp
        next
          case (Some u)
          let ?s1 = "commit rid (t_closure t) (shouldAutoPlay t) u s"
          from Some Inr \<open>tasks s rid = Some t\<close> True
          have e: "resume_fetch hp rid outcome s = finish rid t ?s1"
            by (simp add: resume_fetch_def)
          have "slot_ok (finish rid t ?s1) r"
            using commit_slot [OF all] \<open>tasks s rid = Some t\<close> c le
            by (intro finish_slot [where t' = t]) (simp_all add: commit_frame)
          with e show ?thesis by simp
        qed
      qed
    qed
  qed
qed

lemma resume_timer_slot:
  assumes "budget_inv s"
  shows "slot_ok (resume_timer rid s) r"
proof -
  from assms have all: "\<And>x. slot_ok s x" by (simp add: budget_inv_def)
  show ?thesis
  proof (cases "tasks s rid")
    case None
    with all show ?thesis by (simp add: resume_timer_def)
  next
    case (Some t)
    show ?thesis
    proof (cases "t_phase t = AwaitTimer")
      case False
      with Some all show ?thesis by (simp add: resume_timer_def)
    next
      case True
      from all [of rid] Some True have c: "rid < controllers s"
        and n: "count_fetches rid (effects s) = t_retryCount t"
        and b: "t_retryCount t < MAX_RETRIES"
        by (simp_all add: slot_ok_def attempts_ok_def)
      have "resume_timer rid s = start_attempt rid t s"
        using Some True b by (simp add: resume_timer_def loop_head_def)
      with start_attempt_slot [OF all c n b] show ?thesis by simp
    qed
  qed
qed

lemma onPlaySong_slot:
  assumes "budget_inv s"
  shows "slot_ok (onPlaySong cl sg index qual isRetry s) r"
proof -
  from assms have all: "\<And>x. slot_ok s x" by (simp add: budget_inv_def)
  let ?c = "controllers s"
  have fresh: "tasks s ?c = None" "count_fetches ?c (effects s) = 0"
    using all [of ?c] by (auto simp: slot_ok_def split: option.splits)
  let ?s0 = "s \<lparr> controllers := Suc ?c \<rparr>"
  have s0: "slot_ok ?s0 r"
    using all by (rule slot_ok_unchanged) simp_all
  show ?thesis
  proof (cases "c_isLoading cl \<and> \<not> isRetry")
    case True
    with all show ?thesis by (simp add: onPlaySong_def)
  next
    case g1: False
    show ?thesis
    proof (cases "abortControllerRef s \<noteq> None \<and> url_of (c_currentSong cl) = url sg \<and> \<not> isRetry")
      case True
      with g1 have "onPlaySong cl sg index qual isRetry s = ?s0"
        by (auto simp: onPlaySong_def Let_def)
      with s0 show ?thesis by simp
    next
      case False
      let ?base = "(case abortControllerRef s of None \<Rightarrow> ?s0 | Some previous \<Rightarrow> abort previous ?s0)
            \<lparr> abortControllerRef := Some ?c, isLoading := True \<rparr>"
      from g1 False have e: "onPlaySong cl sg index qual isRetry s
          = start_attempt ?c (first_attempt cl sg index qual isRetry) ?base"
        by (intro onPlaySong_started) auto
      have b: "slot_ok ?base r"
        using all by (rule slot_ok_unchanged) (simp_all add: abort_def emit_def split: option.splits)
      have "slot_ok (start_attempt ?c (first_attempt cl sg index qual isRetry) ?base) r"
        using b
      proof (rule start_attempt_slot)
        show "?c < controllers ?base"
          by (simp add: abort_def emit_def split: option.splits)
        show "count_fetches ?c (effects ?base) = t_retryCount (first_attempt cl sg index qual isRetry)"
          using fresh by (simp add: abort_def emit_def split: option.splits)
        show "t_retryCount (first_attempt cl sg index qual isRetry) < MAX_RETRIES"
          by (simp add: MAX_RETRIES_def)
      qed
      with e show ?thesis by simp
    qed
  qed
qed

lemma step_budget_inv: "budget_inv s \<Longrightarrow> budget_inv (step hp s ev)"
  by (cases ev) (simp_all add: budget_inv_def [of "step hp s ev", simplified]
      budget_inv_def [of "onPlaySong _ _ _ _ _ s"] budget_inv_def [of "resume_fetch _ _ _ s"]
      budget_inv_def [of "resume_timer _ s"] onPlaySong_slot resume_fetch_slot resume_timer_slot)

lemma run_budget_inv: "budget_inv s \<Longrightarrow> budget_inv (run hp s evs)"
  unfolding run_def by (induction evs arbitrary: s) (simp_all add: step_budget_inv)

lemma budget_inv_init: "budget_inv init_state"
  by (simp add: budget_inv_def slot_ok_def init_state_def)

lemma attempts_bounded:
  "budget_inv s \<Longrightarrow> count_fetches rid (effects (run hp s evs)) \<le> MAX_RETRIES"
  using run_budget_inv [of s hp evs] by (simp add: budget_inv_def slot_ok_le_max)

lemma retryable_iff: "retryable e = (\<not> is_cors e \<and> err_name e \<noteq> ''AbortError'')"
  by (simp add: retryable_def)

lemma plain_failure_step:
  assumes "tasks s rid = Some t" and "t_phase t = AwaitFetch"
    and "try_block hp (t_closure t) (t_song t) (t_index t) (t_quality t) outcome = Inl e"
    and "retryable e" and "rid \<notin> set (aborted s)" and "Suc (t_retryCount t) < MAX_RETRIES"
  shows "resume_fetch hp rid outcome s
     = emit [InfoMsg (retrying_msg (Suc (t_retryCount t))), DelayReq rid 1000]
         (set_task rid (t \<lparr> t_lastError := Some e, t_retryCount := Suc (t_retryCount t),
                            t_phase := AwaitTimer \<rparr>) s)"
  using assms
  by (simp add: resume_fetch_def catch_tryPlay_def after_failure_def retryable_iff Let_def)

lemma plain_failure_last:
  assumes "tasks s rid = Some t" and "t_phase t = AwaitFetch"
    and "try_block hp (t_closure t) (t_song t) (t_index t) (t_quality t) outcome = Inl e"
    and "retryable e" and "rid \<notin> set (aborted s)" and "\<not> Suc (t_retryCount t) < MAX_RETRIES"
  shows "resume_fetch hp rid outcome s
     = finish rid (t \<lparr> t_lastError := Some e, t_retryCount := Suc (t_retryCount t) \<rparr>)
         (emit [ConsoleError (play_failed_msg @ '':'') e, ErrorMsg (shown_error e)] s)"
  using assms
  by (simp add: resume_fetch_def catch_tryPlay_def after_failure_def retryable_iff Let_def
      loop_head_def give_up_def shown_error_def)

lemma timer_step:
  assumes "tasks s rid = Some t" and "t_phase t = AwaitTimer" and "t_retryCount t < MAX_RETRIES"
  shows "resume_timer rid s = start_attempt rid t s"
  using assms by (simp add: resume_timer_def loop_head_def)

lemma emit_frame:
  "effects (emit es s) = effects s @ es"
  "tasks (emit es s) = tasks s"
  "aborted (emit es s) = aborted s"
  "controllers (emit es s) = controllers s"
  "committed_part (emit es s) = committed_part s"
  "isLoading (emit es s) = isLoading s"
  "isPlaying (emit es s) = isPlaying s"
  "abortControllerRef (emit es s) = abortControllerRef s"
  by (simp_all add: emit_def)

lemma set_task_frame:
  "effects (set_task rid t s) = effects s"
  "tasks (set_task rid t s) = (tasks s)(rid \<mapsto> t)"
  "aborted (set_task rid t s) = aborted s"
  "controllers (set_task rid t s) = controllers s"
  "committed_part (set_task rid t s) = committed_part s"
  "isLoading (set_task rid t s) = isLoading s"
  "isPlaying (set_task rid t s) = isPlaying s"
  "abortControllerRef (set_task rid t s) = abortControllerRef s"
  by (simp_all add: set_task_def)

text \<open>The state of a resolution after its first two attempts have failed with
  retryable errors and the third request is out.\<close>

lemma two_failures:
  assumes start: "\<not> (c_isLoading cl \<and> \<not> isRetry)"
      "abortControllerRef s \<noteq> None \<longrightarrow> \<not> (url_of (c_currentSong cl) = url sg \<and> \<not> isRetry)"
    and fresh: "controllers s \<notin> set (aborted s)" "abortControllerRef s \<noteq> Some (controllers s)"
    and f1: "try_block hp cl sg index qual o1 = Inl e1" "retryable e1"
    and f2: "try_block hp cl sg index qual o2 = Inl e2" "retryable e2"
  defines "c \<equiv> controllers s"
  defines "s5 \<equiv> run hp s [Call cl sg index qual isRetry, FetchSettled c o1, TimerFired c,
      FetchSettled c o2, TimerFired c]"
  shows "tasks s5 c = Some (first_attempt cl sg index qual isRetry
            \<lparr> t_lastError := Some e2, t_retryCount := 2 \<rparr>)"
    and "c \<notin> set (aborted s5)"
    and "effects s5 = effects s @ abort_of_previous s @
          [FetchReq c (play_requestUrl cl sg index qual),
           InfoMsg (retrying_msg 1), DelayReq c 1000,
           FetchReq c (play_requestUrl cl sg index qual),
           InfoMsg (retrying_msg 2), DelayReq c 1000,
           FetchReq c (play_requestUrl cl sg index qual)]"
    and "committed_part s5 = committed_part s"
proof -
  let ?t0 = "first_attempt cl sg index qual isRetry"
  let ?u = "play_requestUrl cl sg index qual"
  let ?base = "(case abortControllerRef s of None \<Rightarrow> s \<lparr> controllers := Suc c \<rparr>
           | Some previous \<Rightarrow> abort previous (s \<lparr> controllers := Suc c \<rparr>))
            \<lparr> abortControllerRef := Some c, isLoading := True \<rparr>"
  define s1 where "s1 = onPlaySong cl sg index qual isRetry s"
  have s1: "s1 = start_attempt c ?t0 ?base"
    unfolding s1_def c_def using start by (rule onPlaySong_started)
  have a1: "c \<notin> set (aborted s1)"
    using fresh by (auto simp: s1 start_attempt_frame abort_def emit_def c_def split: option.splits)
  have t1: "tasks s1 c = Some ?t0"
    by (simp add: s1 start_attempt_frame)
  have e1: "effects s1 = effects s @ abort_of_previous s @ [FetchReq c ?u]"
    by (simp add: s1 start_attempt_frame abort_of_previous_def abort_def emit_def
        split: option.splits)
  have c1: "committed_part s1 = committed_part s"
    by (simp add: s1 start_attempt_frame abort_def emit_def split: option.splits)
  define s2 where "s2 = resume_fetch hp c o1 s1"
  let ?t1 = "?t0 \<lparr> t_lastError := Some e1, t_retryCount := Suc 0, t_phase := AwaitTimer \<rparr>"
  have s2: "s2 = emit [InfoMsg (retrying_msg (Suc 0)), DelayReq c 1000] (set_task c ?t1 s1)"
    unfolding s2_def using plain_failure_step [OF t1, of hp o1 e1] f1 a1
    by (simp add: MAX_RETRIES_def)
  define s3 where "s3 = resume_timer c s2"
  have s3: "s3 = start_attempt c ?t1 s2"
    unfolding s3_def by (rule timer_step [where t = ?t1])
      (simp_all add: s2 emit_frame set_task_frame MAX_RETRIES_def)
  let ?t2 = "?t1 \<lparr> t_phase := AwaitFetch \<rparr>"
  have t3: "tasks s3 c = Some ?t2" and a3: "c \<notin> set (aborted s3)"
    using a1 by (simp_all add: s3 s2 start_attempt_frame emit_frame set_task_frame)
  define s4 where "s4 = resume_fetch hp c o2 s3"
  let ?t3 = "?t2 \<lparr> t_lastError := Some e2, t_retryCount := Suc (Suc 0), t_phase := AwaitTimer \<rparr>"
  have s4: "s4 = emit [InfoMsg (retrying_msg (Suc (Suc 0))), DelayReq c 1000] (set_task c ?t3 s3)"
    unfolding s4_def using plain_failure_step [OF t3, of hp o2 e2] f2 a3
    by (simp add: MAX_RETRIES_def)
  have s5: "s5 = start_attempt c ?t3 s4"
  proof -
    have "s5 = resume_timer c s4"
      by (simp add: s5_def run_def s1_def s2_def s3_def s4_def)
    also have "\<dots> = start_attempt c ?t3 s4"
      by (rule timer_step [where t = ?t3])
        (simp_all add: s4 emit_frame set_task_frame MAX_RETRIES_def)
    finally show ?thesis .
  qed
  show "tasks s5 c = Some (?t0 \<lparr> t_lastError := Some e2, t_retryCount := 2 \<rparr>)"
    by (simp add: s5 start_attempt_frame first_attempt_def numeral_2_eq_2)
  show "c \<notin> set (aborted s5)"
    using a3 by (simp add: s5 s4 start_attempt_frame emit_frame set_task_frame)
  show "effects s5 = effects s @ abort_of_previous s @
          [FetchReq c ?u, InfoMsg (retrying_msg 1), DelayReq c 1000,
           FetchReq c ?u, InfoMsg (retrying_msg 2), DelayReq c 1000, FetchReq c ?u]"
    by (simp add: s5 s4 s3 s2 e1 start_attempt_frame emit_frame set_task_frame numeral_2_eq_2)
  show "committed_part s5 = committed_part s"
    by (simp add: s5 s4 s3 s2 c1 start_attempt_frame emit_frame set_task_frame)
qed

lemma finish_fields:
  "currentSong (finish rid t s) = currentSong s"
  "playHistory (finish rid t s) = playHistory s"
  "songs (finish rid t s) = songs s"
  by (simp_all add: finish_def set_task_def Let_def)

lemma run_snoc: "run hp s (evs @ [ev]) = step hp (run hp s evs) ev"
  by (simp add: run_def)

text \<open>
  The retry policy for failures that the \<^verbatim>\<open>catch\<close> of \<^verbatim>\<open>tryPlay\<close> records. No resolution
  issues more than 3 requests, in any run from a state in which the requests issued so
  far agree with the retry counters (the initial state is one). For a call that goes
  ahead and whose first two attempts fail with errors that are neither an abort nor a
  cross-origin error: between the attempts the retry notice is shown and a timer of
  1000 ms is started, twice in all; if the third attempt reaches the commit, the song is
  committed and nothing else is shown; if it fails with such an error too, nothing is
  committed, no further notice or timer follows, and the error shown is the third.
\<close>

lemma retry_policy_recorded_failures:
  assumes "\<not> (c_isLoading cl \<and> \<not> isRetry)"
    and "abortControllerRef s \<noteq> None \<longrightarrow> \<not> (url_of (c_currentSong cl) = url sg \<and> \<not> isRetry)"
    and "controllers s \<notin> set (aborted s)" and "abortControllerRef s \<noteq> Some (controllers s)"
    and "try_block hp cl sg index qual o1 = Inl e1" and "retryable e1"
    and "try_block hp cl sg index qual o2 = Inl e2" and "retryable e2"
  defines "c \<equiv> controllers s"
  defines "attempts \<equiv> [FetchReq c (play_requestUrl cl sg index qual),
           InfoMsg (retrying_msg 1), DelayReq c 1000,
           FetchReq c (play_requestUrl cl sg index qual),
           InfoMsg (retrying_msg 2), DelayReq c 1000,
           FetchReq c (play_requestUrl cl sg index qual)]"
  defines "final \<equiv> (\<lambda>o3. run hp s [Call cl sg index qual isRetry, FetchSettled c o1,
           TimerFired c, FetchSettled c o2, TimerFired c, FetchSettled c o3])"
  shows "MAX_RETRIES = 3
       \<and> (budget_inv s0 \<longrightarrow> count_fetches rid (effects (run hp s0 evs)) \<le> MAX_RETRIES)
       \<and> (try_block hp cl sg index qual o3 = Inr (Some u) \<longrightarrow>
            effects (final o3) = effects s @ abort_of_previous s @ attempts
              @ queue_refresh cl u @ [SetCurrentSong c u, AddToHistory c u]
            \<and> currentSong (final o3) = Some u
            \<and> hd (playHistory (final o3)) = simplifiedSong cl u
            \<and> isLoading (final o3) = False)
       \<and> (try_block hp cl sg index qual o3 = Inl e3 \<and> retryable e3 \<longrightarrow>
            effects (final o3) = effects s @ abort_of_previous s @ attempts
              @ [ConsoleError (play_failed_msg @ '':'') e3, ErrorMsg (shown_error e3)]
            \<and> committed_part (final o3) = committed_part s
            \<and> isLoading (final o3) = False)"
proof -
  let ?t = "first_attempt cl sg index qual isRetry \<lparr> t_lastError := Some e2, t_retryCount := 2 \<rparr>"
  define s5 where "s5 = run hp s [Call cl sg index qual isRetry, FetchSettled c o1, TimerFired c,
      FetchSettled c o2, TimerFired c]"
  note tf = two_failures [OF assms(1-8), folded c_def, folded s5_def]
  have fin: "final oc = resume_fetch hp c oc s5" for oc
    using run_snoc [of hp s "[Call cl sg index qual isRetry, FetchSettled c o1, TimerFired c,
      FetchSettled c o2, TimerFired c]" "FetchSettled c oc"]
    by (simp add: final_def s5_def)
  have tq: "t_closure ?t = cl" "t_song ?t = sg" "t_index ?t = index" "t_quality ?t = qual"
    "t_phase ?t = AwaitFetch" "t_retryCount ?t = 2"
    by simp_all
  have 1: "MAX_RETRIES = 3" by (rule MAX_RETRIES_def)
  have 2: "budget_inv s0 \<longrightarrow> count_fetches rid (effects (run hp s0 evs)) \<le> MAX_RETRIES"
    using attempts_bounded by blast
  have 3: "effects (final o3) = effects s @ abort_of_previous s @ attempts
              @ queue_refresh cl u @ [SetCurrentSong c u, AddToHistory c u]
            \<and> currentSong (final o3) = Some u
            \<and> hd (playHistory (final o3)) = simplifiedSong cl u
            \<and> isLoading (final o3) = False"
    if ok: "try_block hp cl sg index qual o3 = Inr (Some u)"
  proof -
    have "resume_fetch hp c o3 s5
        = finish c ?t (commit c (t_closure ?t) (shouldAutoPlay ?t) u s5)"
      using tf(1) tq(5) by (rule resume_fetch_commit) (simp add: ok)
    then have "final o3 = finish c ?t (commit c cl (shouldAutoPlay ?t) u s5)"
      by (simp add: fin)
    then show ?thesis
      by (simp add: finish_frame finish_fields commit_frame tf(3) attempts_def queue_refresh_def
          hd_addToHistory)
  qed
  have 4: "effects (final o3) = effects s @ abort_of_previous s @ attempts
              @ [ConsoleError (play_failed_msg @ '':'') e3, ErrorMsg (shown_error e3)]
            \<and> committed_part (final o3) = committed_part s
            \<and> isLoading (final o3) = False"
    if bad: "try_block hp cl sg index qual o3 = Inl e3" "retryable e3"
  proof -
    have "final o3 = finish c (?t \<lparr> t_lastError := Some e3, t_retryCount := Suc (t_retryCount ?t) \<rparr>)
         (emit [ConsoleError (play_failed_msg @ '':'') e3, ErrorMsg (shown_error e3)] s5)"
      unfolding fin using tf(1) tq(5) _ bad(2) tf(2)
      by (rule plain_failure_last) (simp_all add: bad(1) MAX_RETRIES_def)
    then show ?thesis
      by (simp add: finish_frame emit_frame tf(3,4) attempts_def)
  qed
  from 1 2 3 4 show ?thesis by blast
qed

text \<open>
  C3, at a failing input. The first attempt of a resolution fails with a network error,
  the second with the provider's message "busy", the third with a \<^verbatim>\<open>SecurityError\<close>.
  Three requests are issued, the notice "retrying (n/3)" is shown and a timer of 1000 ms
  is started after the first and after the second failure, and nothing is committed. At
  the third failure the fixed text of the cross-origin branch is shown, and the error
  surfaced at the end is the second one, "busy", not the third: the cross-origin branch
  leaves the recorded last error as it was and the loop goes on to its end. When the
  third attempt fails with an invalid stream URL instead, the error surfaced at the end
  is the third, "invalid audio URL".
\<close>

theorem final_error_is_not_the_third:
  "effects (run ex_host_parser init_state
      [Call ex_closure ex_stub_A2 (Some 2) (Some 5) False,
       FetchSettled 0 (Rejected ex_search_error), TimerFired 0,
       FetchSettled 0 (Resolved ex_wy_busy), TimerFired 0,
       FetchSettled 0 (Rejected ex_security_error)])
     = [FetchReq 0 ''/api/sby?platform=wy&term=abc&index=2&quality=5'',
        InfoMsg ([CHR 0xE6, CHR 0xAD, CHR 0xA3, CHR 0xE5, CHR 0x9C, CHR 0xA8, CHR 0xE9, CHR 0x87,
                  CHR 0x8D, CHR 0xE8, CHR 0xAF, CHR 0x95] @ '' (1/3)...''),
        DelayReq 0 1000,
        FetchReq 0 ''/api/sby?platform=wy&term=abc&index=2&quality=5'',
        InfoMsg ([CHR 0xE6, CHR 0xAD, CHR 0xA3, CHR 0xE5, CHR 0x9C, CHR 0xA8, CHR 0xE9, CHR 0x87,
                  CHR 0x8D, CHR 0xE8, CHR 0xAF, CHR 0x95] @ '' (2/3)...''),
        DelayReq 0 1000,
        FetchReq 0 ''/api/sby?platform=wy&term=abc&index=2&quality=5'',
        ConsoleError ''CORS error detected:'' (JsError ''SecurityError'' ''Blocked a frame with origin''),
        ErrorMsg [CHR 0xE9, CHR 0x9F, CHR 0xB3, CHR 0xE9, CHR 0xA2, CHR 0x91, CHR 0xE5, CHR 0x8A,
                  CHR 0xA0, CHR 0xE8, CHR 0xBD, CHR 0xBD, CHR 0xE5, CHR 0xA4, CHR 0xB1, CHR 0xE8,
                  CHR 0xB4, CHR 0xA5, CHR 0xEF, CHR 0xBC, CHR 0x8C, CHR 0xE8, CHR 0xAF, CHR 0xB7,
                  CHR 0xE5, CHR 0xB0, CHR 0x9D, CHR 0xE8, CHR 0xAF, CHR 0x95, CHR 0xE5, CHR 0x85,
                  CHR 0xB6, CHR 0xE4, CHR 0xBB, CHR 0x96, CHR 0xE6, CHR 0xAD, CHR 0x8C, CHR 0xE6,
                  CHR 0x9B, CHR 0xB2],
        ConsoleError ([CHR 0xE6, CHR 0x92, CHR 0xAD, CHR 0xE6, CHR 0x94, CHR 0xBE, CHR 0xE5,
                       CHR 0xA4, CHR 0xB1, CHR 0xE8, CHR 0xB4, CHR 0xA5] @ '':'')
          (JsError ''Error'' ''busy''),
        ErrorMsg ''busy'']
   \<and> committed_part (run ex_host_parser init_state
      [Call ex_closure ex_stub_A2 (Some 2) (Some 5) False,
       FetchSettled 0 (Rejected ex_search_error), TimerFired 0,
       FetchSettled 0 (Resolved ex_wy_busy), TimerFired 0,
       FetchSettled 0 (Rejected ex_security_error)]) = (None, [], [])
   \<and> map_option t_phase (tasks (run ex_host_parser init_state
      [Call ex_closure ex_stub_A2 (Some 2) (Some 5) False,
       FetchSettled 0 (Rejected ex_search_error), TimerFired 0,
       FetchSettled 0 (Resolved ex_wy_busy), TimerFired 0,
       FetchSettled 0 (Rejected ex_security_error)]) 0) = Some Finished
   \<and> last (effects (run ex_host_parser init_state
      [Call ex_closure ex_stub_A2 (Some 2) (Some 5) False,
       FetchSettled 0 (Rejected ex_search_error), TimerFired 0,
       FetchSettled 0 (Resolved ex_wy_busy), TimerFired 0,
       FetchSettled 0 (Resolved ex_wy_bad_url)]))
     = ErrorMsg ([CHR 0xE6, CHR 0x97, CHR 0xA0, CHR 0xE6, CHR 0x95, CHR 0x88, CHR 0xE7, CHR 0x9A,
                  CHR 0x84, CHR 0xE9, CHR 0x9F, CHR 0xB3, CHR 0xE9, CHR 0xA2, CHR 0x91] @ '' URL'')"
  by code_simp

lemma abort_frame:
  "effects (abort cid s) = effects s @ [AbortReq cid]"
  "aborted (abort cid s) = cid # aborted s"
  "tasks (abort cid s) = tasks s"
  "controllers (abort cid s) = controllers s"
  "committed_part (abort cid s) = committed_part s"
  by (simp_all add: abort_def emit_def)

lemma onPlaySong_cases:
  "onPlaySong cl sg index qual isRetry s = s
   \<or> onPlaySong cl sg index qual isRetry s = s \<lparr> controllers := Suc (controllers s) \<rparr>
   \<or> onPlaySong cl sg index qual isRetry s
       = start_attempt (controllers s) (first_attempt cl sg index qual isRetry)
           ((case abortControllerRef s of None \<Rightarrow> s \<lparr> controllers := Suc (controllers s) \<rparr>
             | Some previous \<Rightarrow> abort previous (s \<lparr> controllers := Suc (controllers s) \<rparr>))
              \<lparr> abortControllerRef := Some (controllers s), isLoading := True \<rparr>)"
proof (cases "c_isLoading cl \<and> \<not> isRetry")
  case True
  then show ?thesis by (simp add: onPlaySong_def)
next
  case g: False
  show ?thesis
  proof (cases "abortControllerRef s \<noteq> None \<and> url_of (c_currentSong cl) = url sg \<and> \<not> isRetry")
    case True
    with g have "onPlaySong cl sg index qual isRetry s = s \<lparr> controllers := Suc (controllers s) \<rparr>"
      by (auto simp: onPlaySong_def Let_def)
    then show ?thesis by simp
  next
    case False
    with g have "onPlaySong cl sg index qual isRetry s
       = start_attempt (controllers s) (first_attempt cl sg index qual isRetry)
           ((case abortControllerRef s of None \<Rightarrow> s \<lparr> controllers := Suc (controllers s) \<rparr>
             | Some previous \<Rightarrow> abort previous (s \<lparr> controllers := Suc (controllers s) \<rparr>))
              \<lparr> abortControllerRef := Some (controllers s), isLoading := True \<rparr>)"
      by (intro onPlaySong_started) auto
    then show ?thesis by simp
  qed
qed

lemma onPlaySong_frame:
  "commits_of r (effects (onPlaySong cl sg index qual isRetry s)) = commits_of r (effects s)"
  "x \<in> set (aborted s) \<Longrightarrow> x \<in> set (aborted (onPlaySong cl sg index qual isRetry s))"
  "committed_part (onPlaySong cl sg index qual isRetry s) = committed_part s"
  using onPlaySong_cases [of cl sg index qual isRetry s]
  by (auto simp: start_attempt_frame abort_frame split: option.splits)

lemma resume_timer_frame:
  "commits_of r (effects (resume_timer rid s)) = commits_of r (effects s)"
  "aborted (resume_timer rid s) = aborted s"
  "committed_part (resume_timer rid s) = committed_part s"
  by (simp_all add: resume_timer_def loop_head_frame split: option.splits)

lemma resume_timer_other:
  "r \<noteq> rid \<Longrightarrow> tasks (resume_timer rid s) r = tasks s r"
  by (simp add: resume_timer_def loop_head_def start_attempt_frame give_up_frame
      split: option.splits)

lemma after_failure_other:
  "r \<noteq> rid \<Longrightarrow> tasks (after_failure rid t s) r = tasks s r"
  by (simp add: after_failure_def loop_head_def start_attempt_frame give_up_frame finish_frame
      emit_frame set_task_frame Let_def)

lemma catch_tryPlay_other:
  "r \<noteq> rid \<Longrightarrow> tasks (catch_tryPlay rid t e s) r = tasks s r"
  by (simp add: catch_tryPlay_def after_failure_other emit_frame)

lemma resume_fetch_aborted: "aborted (resume_fetch hp rid outcome s) = aborted s"
  by (simp add: resume_fetch_def catch_tryPlay_frame finish_frame commit_frame
      split: option.splits sum.splits)

lemma resume_fetch_other:
  assumes "r \<noteq> rid"
  shows "tasks (resume_fetch hp rid outcome s) r = tasks s r"
    and "commits_of r (effects (resume_fetch hp rid outcome s)) = commits_of r (effects s)"
  using assms
  by (simp_all add: resume_fetch_def catch_tryPlay_other catch_tryPlay_frame finish_frame
      commit_frame split: option.splits sum.splits)

lemma resume_fetch_aborted_no_commit:
  assumes "rid \<in> set (aborted s)" and "admissible s (FetchSettled rid outcome)"
  shows "commits_of r (effects (resume_fetch hp rid outcome s)) = commits_of r (effects s)"
    and "committed_part (resume_fetch hp rid outcome s) = committed_part s"
proof -
  from assms obtain e where o: "outcome = Rejected e"
    by (cases outcome) (auto simp: admissible_def)
  show "commits_of r (effects (resume_fetch hp rid outcome s)) = commits_of r (effects s)"
    and "committed_part (resume_fetch hp rid outcome s) = committed_part s"
    by (simp_all add: o resume_fetch_def try_block_Rejected catch_tryPlay_frame
        split: option.splits)
qed

lemma step_aborted_mono: "x \<in> set (aborted s) \<Longrightarrow> x \<in> set (aborted (step hp s ev))"
  by (cases ev) (simp_all add: onPlaySong_frame resume_fetch_aborted resume_timer_frame)

lemma step_no_commit:
  assumes "a \<in> set (aborted s)" and "admissible s ev"
  shows "commits_of a (effects (step hp s ev)) = commits_of a (effects s)"
proof (cases ev)
  case (Call cl sg index qual isRetry)
  then show ?thesis by (simp add: onPlaySong_frame)
next
  case (FetchSettled rid outcome)
  show ?thesis
  proof (cases "rid = a")
    case True
    with assms FetchSettled show ?thesis
      by (simp add: resume_fetch_aborted_no_commit)
  next
    case False
    then have "a \<noteq> rid" by simp
    with FetchSettled show ?thesis by (simp add: resume_fetch_other)
  qed
next
  case (TimerFired rid)
  then show ?thesis by (simp add: resume_timer_frame)
qed

lemma run_no_commit:
  "a \<in> set (aborted s) \<Longrightarrow> admissible_run hp s evs \<Longrightarrow>
     commits_of a (effects (run hp s evs)) = commits_of a (effects s)"
proof (induction evs arbitrary: s)
  case Nil
  then show ?case by (simp add: run_def)
next
  case (Cons ev evs)
  from Cons.prems have ad: "admissible s ev" and rest: "admissible_run hp (step hp s ev) evs"
    by simp_all
  have "run hp s (ev # evs) = run hp (step hp s ev) evs"
    by (simp add: run_def)
  moreover have "commits_of a (effects (run hp (step hp s ev) evs))
      = commits_of a (effects (step hp s ev))"
    using step_aborted_mono [OF Cons.prems(1)] rest by (rule Cons.IH)
  ultimately show ?case
    using step_no_commit [OF Cons.prems(1) ad] by simp
qed

lemma step_event_of_other:
  "event_of a ev \<Longrightarrow> b \<noteq> a \<Longrightarrow> tasks (step hp s ev) b = tasks s b"
  by (cases ev) (simp_all add: event_of_def resume_fetch_other resume_timer_other)

lemma run_events_of_other:
  "list_all (event_of a) evs \<Longrightarrow> b \<noteq> a \<Longrightarrow> tasks (run hp s evs) b = tasks s b"
  unfolding run_def
proof (induction evs arbitrary: s)
  case Nil
  then show ?case by simp
next
  case (Cons ev evs)
  then have e: "event_of a ev" and r: "list_all (event_of a) evs" by simp_all
  have "tasks (foldl (step hp) (step hp s ev) evs) b = tasks (step hp s ev) b"
    using r Cons.prems(2) by (rule Cons.IH)
  with step_event_of_other [OF e Cons.prems(2)] show ?case by simp
qed

lemma admissible_run_append:
  "admissible_run hp s (xs @ ys) = (admissible_run hp s xs \<and> admissible_run hp (run hp s xs) ys)"
  unfolding run_def by (induction xs arbitrary: s) simp_all

lemma commits_of_queue_refresh: "commits_of r (queue_refresh cl u) = []"
  by (simp add: queue_refresh_def)

text \<open>
  What holds as long as the controller reference still holds the controller of the
  resolution \<open>a\<close> in flight. A call of \<^verbatim>\<open>onPlaySong\<close> that goes ahead past the two entry
  guards aborts that controller before the new request is issued; from then on, in every
  run in which an aborted fetch settles only by rejecting with an \<^verbatim>\<open>AbortError\<close>, \<open>a\<close>
  sets no current song and writes no history; and when the new resolution's fetch
  yields a song \<open>u\<close> while only \<open>a\<close> has gone on in between, \<open>u\<close> is committed.
\<close>

lemma superseding_call_aborts_previous:
  fixes index qual :: "nat option"
  assumes "tasks s a = Some ta" and "t_phase ta \<noteq> Finished"
    and "abortControllerRef s = Some a" and "a < controllers s"
    and "\<not> (c_isLoading cl \<and> \<not> isRetry)"
    and "\<not> (url_of (c_currentSong cl) = url sg \<and> \<not> isRetry)"
  defines "b \<equiv> controllers s"
  defines "s1 \<equiv> onPlaySong cl sg index qual isRetry s"
  shows "effects s1 = effects s @ [AbortReq a, FetchReq b (play_requestUrl cl sg index qual)]
       \<and> a \<in> set (aborted s1)
       \<and> (admissible_run hp s1 evs \<longrightarrow>
            commits_of a (effects (run hp s1 evs)) = commits_of a (effects s))
       \<and> (admissible_run hp s1 evs \<and> list_all (event_of a) evs \<and>
          try_block hp cl sg index qual outcome = Inr (Some u) \<longrightarrow>
            currentSong (run hp s1 (evs @ [FetchSettled b outcome])) = Some u
          \<and> hd (playHistory (run hp s1 (evs @ [FetchSettled b outcome]))) = simplifiedSong cl u
          \<and> isPlaying (run hp s1 (evs @ [FetchSettled b outcome]))
              = (if isRetry then c_isPlaying cl else True)
          \<and> effects (run hp s1 (evs @ [FetchSettled b outcome]))
              = effects (run hp s1 evs) @ queue_refresh cl u
                @ [SetCurrentSong b u, AddToHistory b u]
          \<and> commits_of a (effects (run hp s1 (evs @ [FetchSettled b outcome])))
              = commits_of a (effects s))"
proof -
  let ?t = "first_attempt cl sg index qual isRetry"
  have ne: "b \<noteq> a" using assms(4) by (simp add: b_def)
  have s1: "s1 = start_attempt b ?t
      ((abort a (s \<lparr> controllers := Suc b \<rparr>))
         \<lparr> abortControllerRef := Some b, isLoading := True \<rparr>)"
    unfolding s1_def b_def using assms(3,5,6) by (subst onPlaySong_started) simp_all
  have 1: "effects s1 = effects s @ [AbortReq a, FetchReq b (play_requestUrl cl sg index qual)]"
    by (simp add: s1 start_attempt_frame abort_frame)
  have 2: "a \<in> set (aborted s1)"
    by (simp add: s1 start_attempt_frame abort_frame)
  have c1: "commits_of a (effects s1) = commits_of a (effects s)"
    by (simp add: 1)
  have t1: "tasks s1 b = Some ?t"
    by (simp add: s1 start_attempt_frame)
  have 3: "commits_of a (effects (run hp s1 evs)) = commits_of a (effects s)"
    if "admissible_run hp s1 evs"
    using run_no_commit [OF 2 that] c1 by simp
  have 4: "currentSong (run hp s1 (evs @ [FetchSettled b outcome])) = Some u
          \<and> hd (playHistory (run hp s1 (evs @ [FetchSettled b outcome]))) = simplifiedSong cl u
          \<and> isPlaying (run hp s1 (evs @ [FetchSettled b outcome]))
              = (if isRetry then c_isPlaying cl else True)
          \<and> effects (run hp s1 (evs @ [FetchSettled b outcome]))
              = effects (run hp s1 evs) @ queue_refresh cl u
                @ [SetCurrentSong b u, AddToHistory b u]
          \<and> commits_of a (effects (run hp s1 (evs @ [FetchSettled b outcome])))
              = commits_of a (effects s)"
    if ad: "admissible_run hp s1 evs" and only: "list_all (event_of a) evs"
      and ok: "try_block hp cl sg index qual outcome = Inr (Some u)"
  proof -
    let ?s2 = "run hp s1 evs"
    have t2: "tasks ?s2 b = Some ?t"
      using run_events_of_other [OF only ne] t1 by simp
    have "resume_fetch hp b outcome ?s2
        = finish b ?t (commit b (t_closure ?t) (shouldAutoPlay ?t) u ?s2)"
      using t2 by (rule resume_fetch_commit) (simp_all add: ok)
    then have f: "run hp s1 (evs @ [FetchSettled b outcome])
        = finish b ?t (commit b cl (if isRetry then c_isPlaying cl else True) u ?s2)"
      by (simp add: run_snoc shouldAutoPlay_def)
    show ?thesis
      unfolding f using 3 [OF ad] ne
      by (simp add: finish_frame finish_fields commit_frame hd_addToHistory queue_refresh_def)
  qed
  from 1 2 3 4 show ?thesis by blast
qed

text \<open>
  C1, at a failing input. Resolution 0 is in flight when a retry call starts resolution
  1, which aborts it. The fetch of resolution 0 rejects with an \<^verbatim>\<open>AbortError\<close>, and the
  \<^verbatim>\<open>finally\<close> block of that call clears the controller reference, which by then holds the
  controller of resolution 1, and the loading flag. Resolution 1 is still in flight when
  a third call, from the render of that state, starts resolution 2: it finds no
  controller and requests no cancellation. The fetch of resolution 2 succeeds, then that
  of resolution 1: both commit, and the song of the superseded resolution 1 ends as
  the current song. No fetch of an aborted request resolves in this run.
\<close>

theorem superseded_resolution_commits:
  "admissible_run ex_host_parser init_state
      [Call ex_closure ex_stub_A2 (Some 2) (Some 5) False,
       Call ex_second_closure ex_stub_B0 (Some 0) (Some 5) True,
       FetchSettled 0 (Rejected ex_abort_error),
       Call ex_third_closure ex_stub_A1 (Some 1) (Some 5) False,
       FetchSettled 2 (Resolved ex_wy_other),
       FetchSettled 1 (Resolved ex_qq_ok)]
   \<and> abortControllerRef ex_superseded = None
   \<and> isLoading ex_superseded = False
   \<and> map_option t_phase (tasks ex_superseded 1) = Some AwaitFetch
   \<and> effects (run ex_host_parser init_state
      [Call ex_closure ex_stub_A2 (Some 2) (Some 5) False,
       Call ex_second_closure ex_stub_B0 (Some 0) (Some 5) True,
       FetchSettled 0 (Rejected ex_abort_error),
       Call ex_third_closure ex_stub_A1 (Some 1) (Some 5) False,
       FetchSettled 2 (Resolved ex_wy_other),
       FetchSettled 1 (Resolved ex_qq_ok)])
     = [FetchReq 0 ''/api/sby?platform=wy&term=abc&index=2&quality=5'',
        AbortReq 0,
        FetchReq 1 ''/api/sby?platform=qq&term=abc&index=0&quality=5'',
        FetchReq 2 ''/api/sby?platform=wy&term=abc&index=1&quality=5'',
        SetCurrentSong 2 ex_resolved_A1, AddToHistory 2 ex_resolved_A1,
        SetCurrentSong 1 ex_resolved_B0, AddToHistory 1 ex_resolved_B0]
   \<and> currentSong (run ex_host_parser init_state
      [Call ex_closure ex_stub_A2 (Some 2) (Some 5) False,
       Call ex_second_closure ex_stub_B0 (Some 0) (Some 5) True,
       FetchSettled 0 (Rejected ex_abort_error),
       Call ex_third_closure ex_stub_A1 (Some 1) (Some 5) False,
       FetchSettled 2 (Resolved ex_wy_other),
       FetchSettled 1 (Resolved ex_qq_ok)])
     = Some ex_resolved_B0
   \<and> map url (playHistory (run ex_host_parser init_state
      [Call ex_closure ex_stub_A2 (Some 2) (Some 5) False,
       Call ex_second_closure ex_stub_B0 (Some 0) (Some 5) True,
       FetchSettled 0 (Rejected ex_abort_error),
       Call ex_third_closure ex_stub_A1 (Some 1) (Some 5) False,
       FetchSettled 2 (Resolved ex_wy_other),
       FetchSettled 1 (Resolved ex_qq_ok)]))
     = [Some ''http://y/b0.m4a'', Some ''http://x/2.mp3'']"
  by code_simp

text \<open>
  C2, at a failing input. The first fetch of a resolution rejects with a
  \<^verbatim>\<open>SecurityError\<close>. The error is shown and the playing flag is cleared, but the call
  does not stop: it shows "retrying (1/3)", waits, and issues the request again. When
  the second and third fetch reject in the same way, the same happens again, and at the
  end a further error is shown.
\<close>

theorem security_error_is_retried:
  "effects (run ex_host_parser init_state
      [Call ex_closure ex_stub_A2 (Some 2) (Some 5) False,
       FetchSettled 0 (Rejected ex_security_error), TimerFired 0])
     = [FetchReq 0 ''/api/sby?platform=wy&term=abc&index=2&quality=5'',
        ConsoleError ''CORS error detected:'' ex_security_error, ErrorMsg audio_failed_msg,
        InfoMsg (retrying_msg 1), DelayReq 0 1000,
        FetchReq 0 ''/api/sby?platform=wy&term=abc&index=2&quality=5'']
   \<and> isPlaying (run ex_host_parser init_state
      [Call ex_closure ex_stub_A2 (Some 2) (Some 5) False,
       FetchSettled 0 (Rejected ex_security_error), TimerFired 0]) = False
   \<and> map_option t_phase (tasks (run ex_host_parser init_state
      [Call ex_closure ex_stub_A2 (Some 2) (Some 5) False,
       FetchSettled 0 (Rejected ex_security_error), TimerFired 0]) 0) = Some AwaitFetch
   \<and> effects (run ex_host_parser init_state
      [Call ex_closure ex_stub_A2 (Some 2) (Some 5) False,
       FetchSettled 0 (Rejected ex_security_error), TimerFired 0,
       FetchSettled 0 (Rejected ex_security_error), TimerFired 0,
       FetchSettled 0 (Rejected ex_security_error)])
     = [FetchReq 0 ''/api/sby?platform=wy&term=abc&index=2&quality=5'',
        ConsoleError ''CORS error detected:'' ex_security_error, ErrorMsg audio_failed_msg,
        InfoMsg (retrying_msg 1), DelayReq 0 1000,
        FetchReq 0 ''/api/sby?platform=wy&term=abc&index=2&quality=5'',
        ConsoleError ''CORS error detected:'' ex_security_error, ErrorMsg audio_failed_msg,
        InfoMsg (retrying_msg 2), DelayReq 0 1000,
        FetchReq 0 ''/api/sby?platform=wy&term=abc&index=2&quality=5'',
        ConsoleError ''CORS error detected:'' ex_security_error, ErrorMsg audio_failed_msg,
        ConsoleError (play_failed_msg @ '':'') (JsError ''Error'' play_failed_msg),
        ErrorMsg play_failed_msg]"
  by code_simp

text \<open>
  C7, at two failing inputs. A history entry is replayed after a reload: the request
  goes to the entry's own \<^verbatim>\<open>requestUrl\<close>, and the entry that \<^verbatim>\<open>addToHistory\<close> then stores
  carries another one, rebuilt from the empty search box and the index of the call. A
  search result is resolved at quality 10 while the selected quality is 5: the request
  asks for quality 10, the stored entry for quality 5.
\<close>

theorem history_requestUrl_differs_from_fetched:
  "effects (onPlaySong ex_reloaded_closure ex_history_entry (Some 0) (Some 5) False ex_reloaded)
     = [FetchReq 0 ''/api/sby?platform=wy&term=abc&index=2&quality=5'']
   \<and> map requestUrl (playHistory (run ex_host_parser ex_reloaded
        [Call ex_reloaded_closure ex_history_entry (Some 0) (Some 5) False,
         FetchSettled 0 (Resolved ex_wy_other)]))
     = [Some ''/api/sby?platform=wy&term=&index=0&quality=5'']
   \<and> map_option requestUrl (currentSong (run ex_host_parser ex_reloaded
        [Call ex_reloaded_closure ex_history_entry (Some 0) (Some 5) False,
         FetchSettled 0 (Resolved ex_wy_other)]))
     = Some (Some ''/api/sby?platform=wy&term=abc&index=2&quality=5'')
   \<and> effects (onPlaySong ex_closure ex_stub_A2 (Some 2) (Some 10) False init_state)
     = [FetchReq 0 ''/api/sby?platform=wy&term=abc&index=2&quality=10'']
   \<and> map requestUrl (playHistory (run ex_host_parser init_state
        [Call ex_closure ex_stub_A2 (Some 2) (Some 10) False,
         FetchSettled 0 (Resolved ex_wy_ok)]))
     = [Some ''/api/sby?platform=wy&term=abc&index=2&quality=5'']"
  by code_simp

end
